theory Spec2Isabelle
  imports Complex_Main
begin

section \<open>Data model (lib/core/schema.js)\<close>

text \<open>
  JavaScript numbers are modelled as real numbers, strings as character lists, and the
  plain objects the engine uses as dictionaries (\<open>graph\<close>, \<open>nodeMap\<close>) as
  finite maps from strings: an id that names a member of \<open>Object.prototype\<close>
  (\<open>constructor\<close>, \<open>toString\<close>, ...) is read here as any other id.  The random \<open>seed\<close> and \<open>versionNonce\<close> fields and the
  \<open>updated\<close>/\<open>createdAt\<close> stamps of a primitive carry no structure and are left out
  of the element record; the clock \<open>Date.now()\<close> that feeds the identifiers is a
  parameter.
\<close>

record style =
  shape :: string
  fillColor :: string
  strokeColor :: string
  s_width :: real
  s_height :: real

record node =
  n_id :: string
  n_type :: string
  n_label :: string

record pnode = node +
  n_x :: real
  n_y :: real
  n_width :: real
  n_height :: real
  n_style :: style

record point =
  pt_x :: real
  pt_y :: real

record connectionPoints =
  cp_fromPoint :: point
  cp_toPoint :: point
  cp_path :: "point list"

record conn =
  c_id :: "string option"
  c_from :: string
  c_to :: string
  c_type :: string
  c_label :: "string option"
  c_bidirectional :: bool

record pconn = conn +
  c_fromPoint :: point
  c_toPoint :: point
  c_path :: "point list"

record group =
  g_id :: string
  g_label :: string
  g_contains :: "string list"
  g_type :: string

record pgroup = group +
  g_x :: real
  g_y :: real
  g_width :: real
  g_height :: real

record spacing =
  sp_node :: real
  sp_rank :: real

record layoutConfig =
  l_type :: "string option"
  l_direction :: "string option"
  l_spacing :: "spacing option"


text \<open>The static style table \<open>NODE_STYLES\<close> and the lookup
  \<open>NODE_STYLES[node.type] || NODE_STYLES.service\<close>.\<close>

definition NODE_STYLES :: "string \<rightharpoonup> style" where
  "NODE_STYLES =
     [''actor'' \<mapsto> \<lparr>shape = ''ellipse'', fillColor = ''#e1f5fe'', strokeColor = ''#0277bd'',
                      s_width = 120, s_height = 80\<rparr>,
      ''service'' \<mapsto> \<lparr>shape = ''rectangle'', fillColor = ''#f3e5f5'', strokeColor = ''#7b1fa2'',
                      s_width = 140, s_height = 80\<rparr>,
      ''database'' \<mapsto> \<lparr>shape = ''rectangle'', fillColor = ''#e8f5e8'', strokeColor = ''#388e3c'',
                      s_width = 120, s_height = 80\<rparr>,
      ''queue'' \<mapsto> \<lparr>shape = ''rectangle'', fillColor = ''#fff3e0'', strokeColor = ''#f57c00'',
                      s_width = 130, s_height = 70\<rparr>,
      ''cache'' \<mapsto> \<lparr>shape = ''rectangle'', fillColor = ''#fce4ec'', strokeColor = ''#c2185b'',
                      s_width = 110, s_height = 70\<rparr>,
      ''gateway'' \<mapsto> \<lparr>shape = ''diamond'', fillColor = ''#f1f8e9'', strokeColor = ''#689f38'',
                      s_width = 100, s_height = 100\<rparr>,
      ''ui'' \<mapsto> \<lparr>shape = ''rectangle'', fillColor = ''#e3f2fd'', strokeColor = ''#1976d2'',
                      s_width = 130, s_height = 80\<rparr>,
      ''external'' \<mapsto> \<lparr>shape = ''rectangle'', fillColor = ''#fafafa'', strokeColor = ''#616161'',
                      s_width = 120, s_height = 80\<rparr>]"

definition styleFor :: "string \<Rightarrow> style" where
  "styleFor t = (case NODE_STYLES t of Some s \<Rightarrow> s | None \<Rightarrow> the (NODE_STYLES ''service''))"

text \<open>\<open>a || b\<close> on an optional string: the empty string is falsy.\<close>

definition orElse :: "string option \<Rightarrow> string \<Rightarrow> string" where
  "orElse v d = (case v of None \<Rightarrow> d | Some s \<Rightarrow> if s = [] then d else s)"

text \<open>The canvas of the \<open>LayoutEngine\<close> constructor.\<close>

definition canvas_width :: real where "canvas_width = 1200"
definition canvas_height :: real where "canvas_height = 800"
definition canvas_padding :: real where "canvas_padding = 50"

definition position :: "node \<Rightarrow> real \<Rightarrow> real \<Rightarrow> style \<Rightarrow> pnode" where
  "position n x y st =
     \<lparr>n_id = n_id n, n_type = n_type n, n_label = n_label n,
      n_x = x, n_y = y, n_width = s_width st, n_height = s_height st, n_style = st\<rparr>"

section \<open>Connection router (lib/core/layout.js)\<close>

definition calculateOptimalConnectionPoints :: "pnode \<Rightarrow> pnode \<Rightarrow> connectionPoints" where
  "calculateOptimalConnectionPoints fromNode toNode =
     (let fromCenter = \<lparr>pt_x = n_x fromNode + n_width fromNode / 2,
                         pt_y = n_y fromNode + n_height fromNode / 2\<rparr>;
          toCenter = \<lparr>pt_x = n_x toNode + n_width toNode / 2,
                       pt_y = n_y toNode + n_height toNode / 2\<rparr>;
          dx = pt_x toCenter - pt_x fromCenter;
          dy = pt_y toCenter - pt_y fromCenter;
          (fromPoint, toPoint) =
            (if \<bar>dx\<bar> > \<bar>dy\<bar> then
               (if dx > 0 then
                  (\<lparr>pt_x = n_x fromNode + n_width fromNode, pt_y = pt_y fromCenter\<rparr>,
                   \<lparr>pt_x = n_x toNode, pt_y = pt_y toCenter\<rparr>)
                else
                  (\<lparr>pt_x = n_x fromNode, pt_y = pt_y fromCenter\<rparr>,
                   \<lparr>pt_x = n_x toNode + n_width toNode, pt_y = pt_y toCenter\<rparr>))
             else
               (if dy > 0 then
                  (\<lparr>pt_x = pt_x fromCenter, pt_y = n_y fromNode + n_height fromNode\<rparr>,
                   \<lparr>pt_x = pt_x toCenter, pt_y = n_y toNode\<rparr>)
                else
                  (\<lparr>pt_x = pt_x fromCenter, pt_y = n_y fromNode\<rparr>,
                   \<lparr>pt_x = pt_x toCenter, pt_y = n_y toNode + n_height toNode\<rparr>)))
      in \<lparr>cp_fromPoint = fromPoint, cp_toPoint = toPoint, cp_path = [fromPoint, toPoint]\<rparr>)"

section \<open>Layout engine (lib/core/layout.js)\<close>

datatype error = SchemaViolation string | TypeError

record dep =
  incoming :: "string list"
  outgoing :: "string list"

type_synonym graph = "string \<rightharpoonup> dep"

subsection \<open>Dependency graph\<close>

definition addConnection :: "conn \<Rightarrow> graph \<Rightarrow> graph" where
  "addConnection c g =
     (case (g (c_from c), g (c_to c)) of
        (Some f, Some _) \<Rightarrow>
          (let g1 = g(c_from c \<mapsto> f\<lparr>outgoing := outgoing f @ [c_to c]\<rparr>)
           in (case g1 (c_to c) of
                 Some t \<Rightarrow> g1(c_to c \<mapsto> t\<lparr>incoming := incoming t @ [c_from c]\<rparr>)
               | None \<Rightarrow> g1))
      | _ \<Rightarrow> g)"


subsection \<open>Ranking by type\<close>



subsection \<open>Ranking by dependencies\<close>




lemma find_Some_mem: "find P xs = Some x \<Longrightarrow> x \<in> set xs \<and> P x"
  by (induction xs) (auto split: if_splits)






subsection \<open>Positioning\<close>

definition positionNode :: "string \<Rightarrow> spacing \<Rightarrow> nat \<Rightarrow> nat \<Rightarrow> nat \<Rightarrow> node \<Rightarrow> pnode" where
  "positionNode direction spacing layerLength layerIndex nodeIndex n =
     (let st = styleFor (n_type n);
          isVertical = (direction = ''TB'' \<or> direction = ''BT'')
      in if isVertical then
           (let totalWidth = real layerLength * s_width st + (real layerLength - 1) * sp_node spacing;
                startX = (canvas_width - totalWidth) / 2;
                x = startX + real nodeIndex * (s_width st + sp_node spacing);
                y = (if direction = ''TB''
                     then canvas_padding + real layerIndex * (s_height st + sp_rank spacing)
                     else canvas_height - canvas_padding
                            - (real layerIndex + 1) * (s_height st + sp_rank spacing))
            in position n x y st)
         else
           (let totalHeight = real layerLength * s_height st + (real layerLength - 1) * sp_node spacing;
                startY = (canvas_height - totalHeight) / 2;
                y = startY + real nodeIndex * (s_height st + sp_node spacing);
                x = (if direction = ''LR''
                     then canvas_padding + real layerIndex * (s_width st + sp_rank spacing)
                     else canvas_width - canvas_padding
                            - (real layerIndex + 1) * (s_width st + sp_rank spacing))
            in position n x y st))"

definition layerNodes :: "string \<Rightarrow> spacing \<Rightarrow> nat \<Rightarrow> node list \<Rightarrow> pnode list" where
  "layerNodes direction spacing layerIndex layer =
     map (\<lambda>(nodeIndex, n). positionNode direction spacing (length layer) layerIndex nodeIndex n)
         (enumerate 0 layer)"



subsection \<open>Connection paths\<close>

text \<open>
  \<open>console.warn\<close> is the engine's only diagnostic channel; the lines it prints are
  returned beside the result, in the order they are printed.
\<close>

definition nodeMapOf :: "pnode list \<Rightarrow> (string \<rightharpoonup> pnode)" where
  "nodeMapOf positionedNodes = fold (\<lambda>n m. m(n_id n \<mapsto> n)) positionedNodes Map.empty"

definition missingNodeWarning :: "conn \<Rightarrow> string" where
  "missingNodeWarning c =
     ''Connection references missing node: '' @ c_from c @ '' -> '' @ c_to c"

definition connectionPath :: "(string \<rightharpoonup> pnode) \<Rightarrow> conn \<Rightarrow> string + pconn" where
  "connectionPath nodeMap c =
     (case (nodeMap (c_from c), nodeMap (c_to c)) of
        (Some fromNode, Some toNode) \<Rightarrow>
          (let connectionPoints = calculateOptimalConnectionPoints fromNode toNode
           in Inr \<lparr>c_id = Some (orElse (c_id c) (''conn_'' @ c_from c @ ''_'' @ c_to c)),
                    c_from = c_from c, c_to = c_to c, c_type = c_type c, c_label = c_label c,
                    c_bidirectional = c_bidirectional c,
                    c_fromPoint = cp_fromPoint connectionPoints,
                    c_toPoint = cp_toPoint connectionPoints,
                    c_path = cp_path connectionPoints\<rparr>)
      | _ \<Rightarrow> Inl (missingNodeWarning c))"

definition calculateConnectionPaths :: "conn list \<Rightarrow> pnode list \<Rightarrow> pconn list \<times> string list" where
  "calculateConnectionPaths connections positionedNodes =
     (let nodeMap = nodeMapOf positionedNodes;
          results = map (connectionPath nodeMap) connections
      in (concat (map (\<lambda>r. case r of Inr pc \<Rightarrow> [pc] | Inl _ \<Rightarrow> []) results),
          concat (map (\<lambda>r. case r of Inl w \<Rightarrow> [w] | Inr _ \<Rightarrow> []) results)))"

subsection \<open>Bounds and groups\<close>

record bounds =
  minX :: real
  minY :: real
  maxX :: real
  maxY :: real
  b_width :: real
  b_height :: real

fun calculateBounds :: "pnode list \<Rightarrow> bounds" where
  "calculateBounds [] =
     \<lparr>minX = 0, minY = 0, maxX = 0, maxY = 0, b_width = 0, b_height = 0\<rparr>"
| "calculateBounds (n # ns) =
     (let nodes = n # ns;
          minX = Min (set (map n_x nodes));
          minY = Min (set (map n_y nodes));
          maxX = Max (set (map (\<lambda>n. n_x n + n_width n) nodes));
          maxY = Max (set (map (\<lambda>n. n_y n + n_height n) nodes))
      in \<lparr>minX = minX, minY = minY, maxX = maxX, maxY = maxY,
          b_width = maxX - minX, b_height = maxY - minY\<rparr>)"

definition positionGroup :: "(string \<rightharpoonup> pnode) \<Rightarrow> group \<Rightarrow> pgroup option" where
  "positionGroup nodeMap grp =
     (let containedNodes = List.map_filter nodeMap (g_contains grp)
      in if length containedNodes = 0 then None
         else (let bounds = calculateBounds containedNodes;
                   padding = 20
               in Some \<lparr>g_id = g_id grp, g_label = g_label grp, g_contains = g_contains grp,
                         g_type = g_type grp,
                         g_x = minX bounds - padding,
                         g_y = minY bounds - padding,
                         g_width = b_width bounds + 2 * padding,
                         g_height = b_height bounds + 2 * padding\<rparr>))"

definition positionGroups :: "group list \<Rightarrow> pnode list \<Rightarrow> pgroup list" where
  "positionGroups groups positionedNodes =
     List.map_filter (positionGroup (nodeMapOf positionedNodes)) groups"

subsection \<open>The three strategies and their dispatch\<close>

record layout =
  lo_nodes :: "pnode list"
  lo_connections :: "pconn list"
  lo_groups :: "pgroup list"
  lo_bounds :: bounds

definition assemble :: "pnode list \<Rightarrow> conn list \<Rightarrow> group list \<Rightarrow> layout \<times> string list" where
  "assemble positionedNodes connections groups =
     (case calculateConnectionPaths connections positionedNodes of
        (positionedConnections, warnings) \<Rightarrow>
          (\<lparr>lo_nodes = positionedNodes,
            lo_connections = positionedConnections,
            lo_groups = positionGroups groups positionedNodes,
            lo_bounds = calculateBounds positionedNodes\<rparr>, warnings))"

definition spacingOr :: "layoutConfig \<Rightarrow> spacing \<Rightarrow> spacing" where
  "spacingOr layoutConfig d = (case l_spacing layoutConfig of Some s \<Rightarrow> s | None \<Rightarrow> d)"


definition grid_cols :: "nat \<Rightarrow> nat" where
  "grid_cols n = nat \<lceil>sqrt (real n)\<rceil>"

text \<open>\<open>rows\<close> is computed and never read; for an empty node list it is \<open>0 / 0\<close>,
  not a number.\<close>

definition grid_rows :: "nat \<Rightarrow> nat option" where
  "grid_rows n = (if grid_cols n = 0 then None else Some (nat \<lceil>real n / real (grid_cols n)\<rceil>))"

definition gridNode :: "spacing \<Rightarrow> nat \<Rightarrow> nat \<Rightarrow> node \<Rightarrow> pnode" where
  "gridNode spacing cols index n =
     (let row = index div cols;
          col = index mod cols;
          st = styleFor (n_type n)
      in position n (canvas_padding + real col * (s_width st + sp_node spacing))
                    (canvas_padding + real row * (s_height st + sp_rank spacing)) st)"

definition generateGridLayout ::
  "node list \<Rightarrow> conn list \<Rightarrow> group list \<Rightarrow> layoutConfig \<Rightarrow> error + layout \<times> string list" where
  "generateGridLayout nodes connections groups layoutConfig =
     (let spacing = spacingOr layoutConfig \<lparr>sp_node = 80, sp_rank = 100\<rparr>;
          cols = grid_cols (length nodes);
          positionedNodes = map (\<lambda>(index, n). gridNode spacing cols index n) (enumerate 0 nodes)
      in Inr (assemble positionedNodes connections groups))"



section \<open>Element synthesizer (lib/core/renderer.js)\<close>

record binding =
  b_elementId :: string
  b_focus :: real
  b_gap :: real

record element =
  e_id :: string
  e_type :: string
  e_x :: real
  e_y :: real
  e_width :: real
  e_height :: real
  e_backgroundColor :: string
  e_strokeColor :: string
  e_fillStyle :: string
  e_strokeWidth :: real
  e_strokeStyle :: string
  e_opacity :: real
  e_text :: "string option"
  e_fontSize :: "real option"
  e_textAlign :: "string option"
  e_verticalAlign :: "string option"
  e_containerId :: "string option"
  e_boundElements :: "(string \<times> string) list option"
  e_points :: "(real \<times> real) list option"
  e_startBinding :: "binding option"
  e_endBinding :: "binding option"
  e_endArrowhead :: "string option"

record connectionStyle =
  cs_strokeColor :: string
  cs_strokeStyle :: string
  cs_arrowType :: "string option"

definition CONNECTION_STYLES :: "string \<rightharpoonup> connectionStyle" where
  "CONNECTION_STYLES =
     [''http'' \<mapsto> \<lparr>cs_strokeColor = ''#1976d2'', cs_strokeStyle = ''solid'', cs_arrowType = Some ''arrow''\<rparr>,
      ''async'' \<mapsto> \<lparr>cs_strokeColor = ''#f57c00'', cs_strokeStyle = ''dashed'', cs_arrowType = Some ''arrow''\<rparr>,
      ''query'' \<mapsto> \<lparr>cs_strokeColor = ''#388e3c'', cs_strokeStyle = ''solid'', cs_arrowType = Some ''arrow''\<rparr>,
      ''sync'' \<mapsto> \<lparr>cs_strokeColor = ''#7b1fa2'', cs_strokeStyle = ''solid'', cs_arrowType = Some ''arrow''\<rparr>,
      ''data_flow'' \<mapsto> \<lparr>cs_strokeColor = ''#616161'', cs_strokeStyle = ''dotted'', cs_arrowType = Some ''arrow''\<rparr>]"

subsection \<open>Identifiers\<close>

text \<open>
  \<open>generateId\<close> is \<open>`${Date.now()}_${++this.idCounter}`\<close>.  The renderer's state is
  its counter and the number of clock readings taken so far; \<open>now k\<close> is what the
  \<open>k\<close>-th reading of \<open>Date.now()\<close> returns.
\<close>

record rstate =
  idCounter :: nat
  clockReads :: nat

definition digit :: "nat \<Rightarrow> char" where
  "digit d = ''0123456789'' ! d"

fun string_of_nat :: "nat \<Rightarrow> string" where
  "string_of_nat n = (if n < 10 then [digit n] else string_of_nat (n div 10) @ [digit (n mod 10)])"

definition Date_now :: "(nat \<Rightarrow> nat) \<Rightarrow> rstate \<Rightarrow> nat \<times> rstate" where
  "Date_now now s = (now (clockReads s), s\<lparr>clockReads := clockReads s + 1\<rparr>)"

definition generateId :: "(nat \<Rightarrow> nat) \<Rightarrow> rstate \<Rightarrow> string \<times> rstate" where
  "generateId now s =
     (case Date_now now s of
        (t, s1) \<Rightarrow>
          (let c = idCounter s1 + 1
           in (string_of_nat t @ ''_'' @ string_of_nat c, s1\<lparr>idCounter := c\<rparr>)))"

subsection \<open>Nodes and groups\<close>

definition getExcalidrawShapeType :: "string \<Rightarrow> string" where
  "getExcalidrawShapeType shapeType =
     (if shapeType = ''rectangle'' then ''rectangle''
      else if shapeType = ''ellipse'' then ''ellipse''
      else if shapeType = ''diamond'' then ''diamond''
      else ''rectangle'')"

text \<open>The object literals of \<open>renderNode\<close>; the shape is read after
  \<open>shapeElement.boundElements.push\<close> has entered the text.\<close>

definition shapeElement :: "string \<Rightarrow> string \<Rightarrow> pnode \<Rightarrow> element" where
  "shapeElement shapeId textId n =
     \<lparr>e_id = shapeId, e_type = getExcalidrawShapeType (shape (n_style n)),
      e_x = n_x n, e_y = n_y n, e_width = n_width n, e_height = n_height n,
      e_backgroundColor = fillColor (n_style n), e_strokeColor = strokeColor (n_style n),
      e_fillStyle = ''solid'', e_strokeWidth = 2, e_strokeStyle = ''solid'',
      e_opacity = 100, e_text = None, e_fontSize = None, e_textAlign = None,
      e_verticalAlign = None, e_containerId = None,
      e_boundElements = Some [(''text'', textId)], e_points = None,
      e_startBinding = None, e_endBinding = None, e_endArrowhead = None\<rparr>"

definition textElement :: "string \<Rightarrow> string \<Rightarrow> pnode \<Rightarrow> element" where
  "textElement textId shapeId n =
     (let textWidth = min (real (length (n_label n)) * 9) (n_width n - 20);
          textHeight = 20
      in \<lparr>e_id = textId, e_type = ''text'',
          e_x = n_x n + (n_width n - textWidth) / 2,
          e_y = n_y n + (n_height n - textHeight) / 2,
          e_width = textWidth, e_height = textHeight,
          e_backgroundColor = ''transparent'', e_strokeColor = ''#000000'',
          e_fillStyle = ''hachure'', e_strokeWidth = 1, e_strokeStyle = ''solid'',
          e_opacity = 100, e_text = Some (n_label n), e_fontSize = Some 16,
          e_textAlign = Some ''center'', e_verticalAlign = Some ''middle'',
          e_containerId = Some shapeId,
          e_boundElements = None, e_points = None,
          e_startBinding = None, e_endBinding = None, e_endArrowhead = None\<rparr>)"

definition renderNode :: "(nat \<Rightarrow> nat) \<Rightarrow> pnode \<Rightarrow> rstate \<Rightarrow> element list \<times> rstate" where
  "renderNode now n s0 =
     (case Date_now now s0 of (timestamp, s1) \<Rightarrow>
      case generateId now s1 of (sid, s2) \<Rightarrow>
      case generateId now s2 of (tid, s3) \<Rightarrow>
        (let shapeId = ''node_'' @ sid;
             textId = ''text_'' @ tid
         in ([shapeElement shapeId textId n, textElement textId shapeId n], s3)))"

definition groupElement :: "string \<Rightarrow> pgroup \<Rightarrow> element" where
  "groupElement groupId grp =
     \<lparr>e_id = groupId, e_type = ''rectangle'',
      e_x = g_x grp, e_y = g_y grp, e_width = g_width grp, e_height = g_height grp,
      e_backgroundColor = ''transparent'', e_strokeColor = ''#cccccc'',
      e_fillStyle = ''hachure'', e_strokeWidth = 1, e_strokeStyle = ''dashed'',
      e_opacity = 50, e_text = None, e_fontSize = None, e_textAlign = None,
      e_verticalAlign = None, e_containerId = None,
      e_boundElements = Some [], e_points = None,
      e_startBinding = None, e_endBinding = None, e_endArrowhead = None\<rparr>"

definition labelElement :: "string \<Rightarrow> pgroup \<Rightarrow> element" where
  "labelElement labelId grp =
     \<lparr>e_id = labelId, e_type = ''text'',
      e_x = g_x grp + 10, e_y = g_y grp - 25, e_width = 100, e_height = 20,
      e_backgroundColor = ''transparent'', e_strokeColor = ''#666666'',
      e_fillStyle = ''hachure'', e_strokeWidth = 1, e_strokeStyle = ''solid'',
      e_opacity = 100, e_text = Some (g_label grp), e_fontSize = Some 14,
      e_textAlign = Some ''left'', e_verticalAlign = Some ''top'',
      e_containerId = None,
      e_boundElements = None, e_points = None,
      e_startBinding = None, e_endBinding = None, e_endArrowhead = None\<rparr>"

definition renderGroup :: "(nat \<Rightarrow> nat) \<Rightarrow> pgroup \<Rightarrow> rstate \<Rightarrow> element list \<times> rstate" where
  "renderGroup now grp s0 =
     (case Date_now now s0 of (timestamp, s1) \<Rightarrow>
      case generateId now s1 of (gid, s2) \<Rightarrow>
      case generateId now s2 of (lid, s3) \<Rightarrow>
        (let groupId = ''group_'' @ gid;
             labelId = ''group_label_'' @ lid
         in ([groupElement groupId grp, labelElement labelId grp], s3)))"

subsection \<open>Connections\<close>

text \<open>
  The label of a connection is set off the segment by
  \<open>(-sin a * distance, cos a * distance)\<close> with \<open>a = atan2(dy, dx)\<close>, that is
  along the unit normal of the segment; \<open>atan2(0, 0)\<close> is \<open>0\<close>.
\<close>

definition labelOffset :: "real \<Rightarrow> real \<Rightarrow> real \<Rightarrow> real \<times> real" where
  "labelOffset dx dy distance =
     (if dx = 0 \<and> dy = 0 then (0, distance)
      else (- (dy / sqrt (dx * dx + dy * dy)) * distance, (dx / sqrt (dx * dx + dy * dy)) * distance))"

definition connectionLabel :: "string \<Rightarrow> string \<Rightarrow> real \<Rightarrow> real \<Rightarrow> element" where
  "connectionLabel labelId processedLabel labelX labelY =
     (let estimatedWidth = min (real (length processedLabel) * 7) 150;
          estimatedHeight = 16
      in \<lparr>e_id = labelId, e_type = ''text'',
          e_x = labelX - estimatedWidth / 2, e_y = labelY - estimatedHeight / 2,
          e_width = estimatedWidth, e_height = estimatedHeight,
          e_backgroundColor = ''#ffffff'', e_strokeColor = ''#000000'',
          e_fillStyle = ''solid'', e_strokeWidth = 1, e_strokeStyle = ''solid'',
          e_opacity = 100, e_text = Some processedLabel, e_fontSize = Some 12,
          e_textAlign = Some ''center'', e_verticalAlign = Some ''middle'',
          e_containerId = None,
          e_boundElements = None, e_points = None,
          e_startBinding = None, e_endBinding = None, e_endArrowhead = None\<rparr>)"

definition arrowElement :: "string \<Rightarrow> pconn \<Rightarrow> element" where
  "arrowElement arrowId c =
     (let connectionStyle = (case CONNECTION_STYLES (c_type c) of
                               Some st \<Rightarrow> st
                             | None \<Rightarrow> the (CONNECTION_STYLES ''sync''));
          fromPoint = c_fromPoint c;
          toPoint = c_toPoint c
      in \<lparr>e_id = arrowId, e_type = ''arrow'',
          e_x = min (pt_x fromPoint) (pt_x toPoint),
          e_y = min (pt_y fromPoint) (pt_y toPoint),
          e_width = \<bar>pt_x toPoint - pt_x fromPoint\<bar>,
          e_height = \<bar>pt_y toPoint - pt_y fromPoint\<bar>,
          e_backgroundColor = ''transparent'',
          e_strokeColor = cs_strokeColor connectionStyle,
          e_fillStyle = ''hachure'', e_strokeWidth = 2,
          e_strokeStyle = cs_strokeStyle connectionStyle,
          e_opacity = 100, e_text = None, e_fontSize = None, e_textAlign = None,
          e_verticalAlign = None, e_containerId = None,
          e_boundElements = Some [],
          e_points = Some [(0, 0),
                           (pt_x toPoint - min (pt_x fromPoint) (pt_x toPoint),
                            pt_y toPoint - min (pt_y fromPoint) (pt_y toPoint))],
          e_startBinding = Some \<lparr>b_elementId = c_from c, b_focus = 0, b_gap = 0\<rparr>,
          e_endBinding = Some \<lparr>b_elementId = c_to c, b_focus = 0, b_gap = 0\<rparr>,
          e_endArrowhead = (if cs_arrowType connectionStyle = Some ''arrow''
                            then Some ''arrow'' else None)\<rparr>)"

definition renderConnection :: "(nat \<Rightarrow> nat) \<Rightarrow> pconn \<Rightarrow> rstate \<Rightarrow> element list \<times> rstate" where
  "renderConnection now c s0 =
     (case Date_now now s0 of (timestamp, s1) \<Rightarrow>
      case generateId now s1 of (aid, s2) \<Rightarrow>
        (let arrowId = ''conn_'' @ aid;
             fromPoint = c_fromPoint c;
             toPoint = c_toPoint c
         in case c_label c of
              None \<Rightarrow> ([arrowElement arrowId c], s2)
            | Some lbl \<Rightarrow>
                if lbl = [] then ([arrowElement arrowId c], s2)
                else (case generateId now s2 of (lid, s3) \<Rightarrow>
                        (let dx = pt_x toPoint - pt_x fromPoint;
                             dy = pt_y toPoint - pt_y fromPoint;
                             distance = 15;
                             midX = (pt_x fromPoint + pt_x toPoint) / 2;
                             midY = (pt_y fromPoint + pt_y toPoint) / 2
                         in case labelOffset dx dy distance of (offsetX, offsetY) \<Rightarrow>
                              ([arrowElement arrowId c,
                                connectionLabel (''label_'' @ lid) lbl (midX + offsetX) (midY + offsetY)],
                               s3)))))"

text \<open>
  The file holds a second revision of the renderer, whose \<open>renderConnection\<close> reads a
  style table with a \<open>none\<close> entry, leaves both bindings \<open>null\<close> and puts the label on
  the midpoint of the segment.
\<close>

definition CONNECTION_STYLES_rev :: "string \<rightharpoonup> connectionStyle" where
  "CONNECTION_STYLES_rev =
     [''http'' \<mapsto> \<lparr>cs_strokeColor = ''#424242'', cs_strokeStyle = ''solid'', cs_arrowType = None\<rparr>,
      ''async'' \<mapsto> \<lparr>cs_strokeColor = ''#0277bd'', cs_strokeStyle = ''dashed'', cs_arrowType = None\<rparr>,
      ''query'' \<mapsto> \<lparr>cs_strokeColor = ''#388e3c'', cs_strokeStyle = ''dotted'', cs_arrowType = None\<rparr>,
      ''sync'' \<mapsto> \<lparr>cs_strokeColor = ''#7b1fa2'', cs_strokeStyle = ''solid'', cs_arrowType = None\<rparr>,
      ''data_flow'' \<mapsto> \<lparr>cs_strokeColor = ''#f57c00'', cs_strokeStyle = ''solid'', cs_arrowType = None\<rparr>,
      ''none'' \<mapsto> \<lparr>cs_strokeColor = ''#9e9e9e'', cs_strokeStyle = ''solid'', cs_arrowType = None\<rparr>]"

definition isWhiteSpace :: "char \<Rightarrow> bool" where
  "isWhiteSpace ch = (ch \<in> {CHR '' '', CHR 0x09, CHR 0x0A, CHR 0x0B, CHR 0x0C, CHR 0x0D})"

definition trim :: "string \<Rightarrow> string" where
  "trim str = rev (dropWhile isWhiteSpace (rev (dropWhile isWhiteSpace str)))"

definition arrowElement_rev :: "string \<Rightarrow> pconn \<Rightarrow> element" where
  "arrowElement_rev arrowId c =
     (let st = (case CONNECTION_STYLES_rev (c_type c) of
                  Some st \<Rightarrow> st
                | None \<Rightarrow> the (CONNECTION_STYLES_rev ''none''));
          fromPoint = c_fromPoint c;
          toPoint = c_toPoint c
      in \<lparr>e_id = arrowId, e_type = ''arrow'',
          e_x = pt_x fromPoint, e_y = pt_y fromPoint,
          e_width = pt_x toPoint - pt_x fromPoint,
          e_height = pt_y toPoint - pt_y fromPoint,
          e_backgroundColor = ''transparent'',
          e_strokeColor = cs_strokeColor st,
          e_fillStyle = ''solid'', e_strokeWidth = 2,
          e_strokeStyle = cs_strokeStyle st,
          e_opacity = 100, e_text = None, e_fontSize = None, e_textAlign = None,
          e_verticalAlign = None, e_containerId = None,
          e_boundElements = None,
          e_points = Some [(0, 0),
                           (pt_x toPoint - pt_x fromPoint, pt_y toPoint - pt_y fromPoint)],
          e_startBinding = None,
          e_endBinding = None,
          e_endArrowhead = Some ''arrow''\<rparr>)"

definition renderConnection_rev :: "(nat \<Rightarrow> nat) \<Rightarrow> pconn \<Rightarrow> rstate \<Rightarrow> element list \<times> rstate" where
  "renderConnection_rev now c s0 =
     (case Date_now now s0 of (timestamp, s1) \<Rightarrow>
      case generateId now s1 of (aid, s2) \<Rightarrow>
        (let arrowId = ''arrow_'' @ aid;
             fromPoint = c_fromPoint c;
             toPoint = c_toPoint c
         in case c_label c of
              None \<Rightarrow> ([arrowElement_rev arrowId c], s2)
            | Some lbl \<Rightarrow>
                if lbl = [] \<or> trim lbl = [] then ([arrowElement_rev arrowId c], s2)
                else (case generateId now s2 of (lid, s3) \<Rightarrow>
                        (let labelX = pt_x fromPoint + (pt_x toPoint - pt_x fromPoint) / 2;
                             labelY = pt_y fromPoint + (pt_y toPoint - pt_y fromPoint) / 2
                         in ([arrowElement_rev arrowId c,
                              connectionLabel (''label_'' @ lid) lbl labelX labelY],
                             s3)))))"

subsection \<open>The document\<close>

record appState =
  viewBackgroundColor :: string
  gridSize :: nat
  zoom :: real
  scrollX :: real
  scrollY :: real

record document =
  d_type :: string
  d_version :: nat
  d_source :: string
  d_elements :: "element list"
  d_appState :: appState

fun renderEach :: "('a \<Rightarrow> rstate \<Rightarrow> element list \<times> rstate) \<Rightarrow> 'a list \<Rightarrow> rstate
                     \<Rightarrow> element list \<times> rstate" where
  "renderEach f [] s = ([], s)"
| "renderEach f (x # xs) s =
     (case f x s of (es, s1) \<Rightarrow>
      case renderEach f xs s1 of (rest, s2) \<Rightarrow> (es @ rest, s2))"

definition envelope :: "element list \<Rightarrow> document" where
  "envelope elements =
     \<lparr>d_type = ''excalidraw'', d_version = 2, d_source = ''draw-arch-dsl-renderer'',
      d_elements = elements,
      d_appState = \<lparr>viewBackgroundColor = ''#ffffff'', gridSize = 20, zoom = 1,
                    scrollX = 0, scrollY = 0\<rparr>\<rparr>"

definition render :: "(nat \<Rightarrow> nat) \<Rightarrow> layout \<Rightarrow> rstate \<Rightarrow> document \<times> rstate" where
  "render now layout s0 =
     (case renderEach (renderGroup now) (lo_groups layout) s0 of (groupElements, s1) \<Rightarrow>
      case renderEach (renderNode now) (lo_nodes layout) s1 of (nodeElements, s2) \<Rightarrow>
      case renderEach (renderConnection now) (lo_connections layout) s2 of (connectionElements, s3) \<Rightarrow>
        (envelope (groupElements @ nodeElements @ connectionElements), s3))"

section \<open>Validation and the pipeline (schema.js, lib/semantic/generator.js)\<close>


















section \<open>The router's anchors\<close>

definition inRect :: "pnode \<Rightarrow> point \<Rightarrow> bool" where
  "inRect r p = (n_x r \<le> pt_x p \<and> pt_x p \<le> n_x r + n_width r
               \<and> n_y r \<le> pt_y p \<and> pt_y p \<le> n_y r + n_height r)"

definition strictlyInside :: "pnode \<Rightarrow> point \<Rightarrow> bool" where
  "strictlyInside r p = (n_x r < pt_x p \<and> pt_x p < n_x r + n_width r
               \<and> n_y r < pt_y p \<and> pt_y p < n_y r + n_height r)"

definition onBoundary :: "pnode \<Rightarrow> point \<Rightarrow> bool" where
  "onBoundary r p = (inRect r p \<and> \<not> strictlyInside r p)"

definition centerX :: "pnode \<Rightarrow> real" where
  "centerX r = n_x r + n_width r / 2"

definition centerY :: "pnode \<Rightarrow> real" where
  "centerY r = n_y r + n_height r / 2"

definition leftMid :: "pnode \<Rightarrow> point" where
  "leftMid r = \<lparr>pt_x = n_x r, pt_y = centerY r\<rparr>"

definition rightMid :: "pnode \<Rightarrow> point" where
  "rightMid r = \<lparr>pt_x = n_x r + n_width r, pt_y = centerY r\<rparr>"

definition topMid :: "pnode \<Rightarrow> point" where
  "topMid r = \<lparr>pt_x = centerX r, pt_y = n_y r\<rparr>"

definition bottomMid :: "pnode \<Rightarrow> point" where
  "bottomMid r = \<lparr>pt_x = centerX r, pt_y = n_y r + n_height r\<rparr>"

lemma mids_onBoundary:
  assumes "0 \<le> n_width r" "0 \<le> n_height r"
  shows "onBoundary r (leftMid r)" "onBoundary r (rightMid r)" "onBoundary r (topMid r)" "onBoundary r (bottomMid r)"
  using assms by (auto simp: onBoundary_def inRect_def strictlyInside_def leftMid_def rightMid_def topMid_def bottomMid_def centerX_def centerY_def)

text \<open>
  Claim C5.  For two rectangles (width and height not negative) the router anchors on
  the right edge of the source and the left edge of the target, or the other way round,
  when the horizontal part of the centre-to-centre displacement is strictly the larger;
  in every other case, the tie included, it anchors on the bottom and top edges.  Both
  anchor points are the midpoints of those edges, so they lie on the boundary of their
  rectangles: inside the closed rectangle and not strictly inside it.
\<close>

theorem router_anchors:
  fixes a b :: pnode
  defines "dx \<equiv> centerX b - centerX a" and "dy \<equiv> centerY b - centerY a"
  defines "r \<equiv> calculateOptimalConnectionPoints a b"
  assumes "0 \<le> n_width a" "0 \<le> n_height a" "0 \<le> n_width b" "0 \<le> n_height b"
  shows "(\<bar>dx\<bar> > \<bar>dy\<bar> \<and> dx > 0 \<longrightarrow> cp_fromPoint r = rightMid a \<and> cp_toPoint r = leftMid b)
       \<and> (\<bar>dx\<bar> > \<bar>dy\<bar> \<and> dx < 0 \<longrightarrow> cp_fromPoint r = leftMid a \<and> cp_toPoint r = rightMid b)
       \<and> (\<bar>dx\<bar> \<le> \<bar>dy\<bar> \<and> dy > 0 \<longrightarrow> cp_fromPoint r = bottomMid a \<and> cp_toPoint r = topMid b)
       \<and> (\<bar>dx\<bar> \<le> \<bar>dy\<bar> \<and> dy \<le> 0 \<longrightarrow> cp_fromPoint r = topMid a \<and> cp_toPoint r = bottomMid b)
       \<and> onBoundary a (cp_fromPoint r) \<and> onBoundary b (cp_toPoint r)
       \<and> cp_path r = [cp_fromPoint r, cp_toPoint r]"
proof -
  have cases: "(\<bar>dx\<bar> > \<bar>dy\<bar> \<and> dx > 0) \<or> (\<bar>dx\<bar> > \<bar>dy\<bar> \<and> dx < 0) \<or> (\<bar>dx\<bar> \<le> \<bar>dy\<bar> \<and> dy > 0) \<or> (\<bar>dx\<bar> \<le> \<bar>dy\<bar> \<and> dy \<le> 0)"
    by linarith
  have 1: "\<bar>dx\<bar> > \<bar>dy\<bar> \<Longrightarrow> dx > 0 \<Longrightarrow> cp_fromPoint r = rightMid a \<and> cp_toPoint r = leftMid b"
    unfolding r_def dx_def dy_def
    by (simp add: calculateOptimalConnectionPoints_def Let_def centerX_def centerY_def rightMid_def leftMid_def)
  have 2: "\<bar>dx\<bar> > \<bar>dy\<bar> \<Longrightarrow> dx < 0 \<Longrightarrow> cp_fromPoint r = leftMid a \<and> cp_toPoint r = rightMid b"
    unfolding r_def dx_def dy_def
    by (simp add: calculateOptimalConnectionPoints_def Let_def centerX_def centerY_def rightMid_def leftMid_def)
  have 3: "\<bar>dx\<bar> \<le> \<bar>dy\<bar> \<Longrightarrow> dy > 0 \<Longrightarrow> cp_fromPoint r = bottomMid a \<and> cp_toPoint r = topMid b"
    unfolding r_def dx_def dy_def
    by (simp add: calculateOptimalConnectionPoints_def Let_def centerX_def centerY_def bottomMid_def topMid_def)
  have 4: "\<bar>dx\<bar> \<le> \<bar>dy\<bar> \<Longrightarrow> dy \<le> 0 \<Longrightarrow> cp_fromPoint r = topMid a \<and> cp_toPoint r = bottomMid b"
    unfolding r_def dx_def dy_def
    by (simp add: calculateOptimalConnectionPoints_def Let_def centerX_def centerY_def bottomMid_def topMid_def)
  have 5: "cp_path r = [cp_fromPoint r, cp_toPoint r]"
    unfolding r_def
    by (simp add: calculateOptimalConnectionPoints_def Let_def split: prod.splits)
  note m = mids_onBoundary[OF assms(4,5)] mids_onBoundary[OF assms(6,7)]
  from cases 1 2 3 4 m have "onBoundary a (cp_fromPoint r) \<and> onBoundary b (cp_toPoint r)"
    by metis
  with 1 2 3 4 5 show ?thesis by blast
qed

text \<open>The scenario of the specification: an actor above a service, one rank apart.\<close>

definition scenario_u :: pnode where
  "scenario_u = position \<lparr>n_id = ''u'', n_type = ''actor'', n_label = ''U''\<rparr> 540 50 (styleFor ''actor'')"

definition scenario_s :: pnode where
  "scenario_s = position \<lparr>n_id = ''s'', n_type = ''service'', n_label = ''S''\<rparr> 530 230 (styleFor ''service'')"

lemma styleFor_simps:
  "styleFor ''actor'' = \<lparr>shape = ''ellipse'', fillColor = ''#e1f5fe'', strokeColor = ''#0277bd'',
                      s_width = 120, s_height = 80\<rparr>"
  "styleFor ''service'' = \<lparr>shape = ''rectangle'', fillColor = ''#f3e5f5'', strokeColor = ''#7b1fa2'',
                      s_width = 140, s_height = 80\<rparr>"
  by (simp_all add: styleFor_def NODE_STYLES_def)

theorem router_anchors_witness:
  "cp_fromPoint (calculateOptimalConnectionPoints scenario_u scenario_s) = \<lparr>pt_x = 600, pt_y = 130\<rparr>
   \<and> cp_toPoint (calculateOptimalConnectionPoints scenario_u scenario_s) = \<lparr>pt_x = 600, pt_y = 230\<rparr>
   \<and> onBoundary scenario_u \<lparr>pt_x = 600, pt_y = 130\<rparr>
   \<and> onBoundary scenario_s \<lparr>pt_x = 600, pt_y = 230\<rparr>"
proof -
  have h: "0 \<le> n_width scenario_u" "0 \<le> n_height scenario_u"
          "0 \<le> n_width scenario_s" "0 \<le> n_height scenario_s"
    by (simp_all add: scenario_u_def scenario_s_def position_def styleFor_simps)
  have c: "centerX scenario_u = 600" "centerY scenario_u = 90"
          "centerX scenario_s = 600" "centerY scenario_s = 270"
    by (simp_all add: centerX_def centerY_def scenario_u_def scenario_s_def position_def styleFor_simps)
  have b: "bottomMid scenario_u = \<lparr>pt_x = 600, pt_y = 130\<rparr>" "topMid scenario_s = \<lparr>pt_x = 600, pt_y = 230\<rparr>"
    by (simp_all add: bottomMid_def topMid_def c) (simp_all add: scenario_u_def scenario_s_def position_def styleFor_simps)
  note r = router_anchors[OF h]
  from r c b have f: "cp_fromPoint (calculateOptimalConnectionPoints scenario_u scenario_s) = \<lparr>pt_x = 600, pt_y = 130\<rparr>"
    and t: "cp_toPoint (calculateOptimalConnectionPoints scenario_u scenario_s) = \<lparr>pt_x = 600, pt_y = 230\<rparr>"
    by simp_all
  from r have "onBoundary scenario_u (cp_fromPoint (calculateOptimalConnectionPoints scenario_u scenario_s))"
    and "onBoundary scenario_s (cp_toPoint (calculateOptimalConnectionPoints scenario_u scenario_s))"
    by blast+
  with f t show ?thesis by simp
qed

section \<open>Lookup of positioned nodes\<close>

lemma find_app:
  "find P (xs @ ys) = (case find P xs of Some x \<Rightarrow> Some x | None \<Rightarrow> find P ys)"
  by (induction xs) auto

lemma nodeMapOf_fold_aux:
  "fold (\<lambda>n m. m(n_id n \<mapsto> n)) ps m0 i =
     (case find (\<lambda>n. n_id n = i) (rev ps) of Some n \<Rightarrow> Some n | None \<Rightarrow> m0 i)"
  by (induction ps arbitrary: m0) (auto simp: find_app split: option.splits)

lemma nodeMapOf_find: "nodeMapOf ps i = find (\<lambda>n. n_id n = i) (rev ps)"
  by (simp add: nodeMapOf_def nodeMapOf_fold_aux split: option.splits)


lemma nodeMapOf_Some: "nodeMapOf ps i = Some n \<Longrightarrow> n \<in> set ps \<and> n_id n = i"
  by (auto simp: nodeMapOf_find dest: find_Some_mem)

section \<open>Group boxes\<close>

text \<open>The members of a group that resolve: \<open>containedNodes\<close> of \<open>positionGroups\<close>.\<close>

definition resolvedMembers :: "pnode list \<Rightarrow> group \<Rightarrow> pnode list" where
  "resolvedMembers positionedNodes grp =
     List.map_filter (nodeMapOf positionedNodes) (g_contains grp)"

lemma resolvedMembers_subset: "set (resolvedMembers ps grp) \<subseteq> set ps"
  by (auto simp: resolvedMembers_def List.map_filter_def dest: nodeMapOf_Some)








section \<open>Grid layout\<close>

lemma sq_le_nat: "real n \<le> (real c)\<^sup>2 \<longleftrightarrow> n \<le> c * c"
proof -
  have "(real c)\<^sup>2 = real (c * c)" by (simp add: power2_eq_square)
  then show ?thesis by (simp only: of_nat_le_iff)
qed

lemma sq_less_nat: "(real c)\<^sup>2 < real n \<longleftrightarrow> c * c < n"
proof -
  have "(real c)\<^sup>2 = real (c * c)" by (simp add: power2_eq_square)
  then show ?thesis by (simp only: of_nat_less_iff)
qed

lemma sqrt_le_nat: "sqrt (real n) \<le> real c \<longleftrightarrow> n \<le> c * c"
proof -
  have "sqrt (real n) \<le> real c \<longleftrightarrow> sqrt (real n) \<le> sqrt ((real c)\<^sup>2)" by simp
  also have "\<dots> \<longleftrightarrow> real n \<le> (real c)\<^sup>2" by (rule real_sqrt_le_iff)
  finally show ?thesis by (simp only: sq_le_nat)
qed

lemma sqrt_gr_nat: "real c < sqrt (real n) \<longleftrightarrow> c * c < n"
proof -
  have "real c < sqrt (real n) \<longleftrightarrow> sqrt ((real c)\<^sup>2) < sqrt (real n)" by simp
  also have "\<dots> \<longleftrightarrow> (real c)\<^sup>2 < real n" by (rule real_sqrt_less_iff)
  finally show ?thesis by (simp only: sq_less_nat)
qed

lemma grid_cols_0: "grid_cols 0 = 0"
  by (simp add: grid_cols_def)

lemma grid_cols_unique:
  assumes "(c - 1) * (c - 1) < n" "n \<le> c * c"
  shows "grid_cols n = c"
proof -
  from assms have c: "0 < c" by (cases c) auto
  have up: "sqrt (real n) \<le> real c" using assms(2) by (simp only: sqrt_le_nat)
  have "real (c - 1) < sqrt (real n)" using assms(1) by (simp only: sqrt_gr_nat)
  with c have lo: "real c - 1 < sqrt (real n)" by (simp add: of_nat_diff)
  from up lo have "\<lceil>sqrt (real n)\<rceil> = int c"
    by (intro ceiling_unique) auto
  then show ?thesis by (simp add: grid_cols_def)
qed

lemma grid_cols_bounds:
  assumes "0 < n"
  shows "0 < grid_cols n \<and> (grid_cols n - 1) * (grid_cols n - 1) < n \<and> n \<le> grid_cols n * grid_cols n"
proof -
  let ?c = "grid_cols n"
  have pos: "0 < sqrt (real n)" using assms by simp
  then have cpos: "0 < \<lceil>sqrt (real n)\<rceil>" by simp
  then have c0: "0 < ?c" by (simp add: grid_cols_def)
  have rc: "real ?c = of_int \<lceil>sqrt (real n)\<rceil>" using cpos by (simp add: grid_cols_def)
  have "sqrt (real n) \<le> real ?c" unfolding rc by (rule le_of_int_ceiling)
  then have 1: "n \<le> ?c * ?c" by (simp only: sqrt_le_nat)
  have "real ?c - 1 < sqrt (real n)" unfolding rc using ceiling_correct[of "sqrt (real n)"] by linarith
  then have "real (?c - 1) < sqrt (real n)" using c0 by (simp add: of_nat_diff)
  then have 2: "(?c - 1) * (?c - 1) < n" by (simp only: sqrt_gr_nat)
  from c0 1 2 show ?thesis by simp
qed


lemma ceil_ratio_unique:
  assumes "0 < c" "(r - 1) * c < n" "n \<le> r * c"
  shows "nat \<lceil>real n / real c\<rceil> = r"
proof -
  from assms have r: "0 < r" by (cases r) auto
  have "real n \<le> real (r * c)" using assms(3) by (simp only: of_nat_le_iff)
  then have up: "real n / real c \<le> real r" using assms(1) by (simp add: pos_divide_le_eq)
  have "real ((r - 1) * c) < real n" using assms(2) by (simp only: of_nat_less_iff)
  then have "real (r - 1) * real c < real n" by simp
  then have "real (r - 1) < real n / real c" using assms(1) by (simp add: pos_less_divide_eq)
  with r have lo: "real r - 1 < real n / real c" by (simp add: of_nat_diff)
  from up lo have "\<lceil>real n / real c\<rceil> = int r"
    by (intro ceiling_unique) auto
  then show ?thesis by simp
qed

lemma ceil_ratio_bounds:
  assumes "0 < c" "0 < n"
  shows "0 < nat \<lceil>real n / real c\<rceil> \<and> (nat \<lceil>real n / real c\<rceil> - 1) * c < n
         \<and> n \<le> nat \<lceil>real n / real c\<rceil> * c"
proof -
  define q where "q = real n / real c"
  define r where "r = nat \<lceil>q\<rceil>"
  have qpos: "0 < q" using assms by (simp add: q_def)
  then have cpos: "0 < \<lceil>q\<rceil>" by simp
  then have r0: "0 < r" by (simp add: r_def)
  have rr: "real r = of_int \<lceil>q\<rceil>" using cpos by (simp add: r_def)
  have qc: "q * real c = real n" using assms(1) by (simp add: q_def)
  have "q \<le> real r" unfolding rr by (rule le_of_int_ceiling)
  then have "q * real c \<le> real r * real c" by (intro mult_right_mono) simp_all
  then have "real n \<le> real (r * c)" by (simp add: qc)
  then have 1: "n \<le> r * c" by (simp only: of_nat_le_iff)
  have "real r - 1 < q" unfolding rr using ceiling_correct[of q] by linarith
  then have "real (r - 1) < q" using r0 by (simp add: of_nat_diff)
  then have "real (r - 1) * real c < q * real c" using assms(1) by (intro mult_strict_right_mono) simp_all
  then have "real ((r - 1) * c) < real n" by (simp add: qc)
  then have 2: "(r - 1) * c < n" by (simp only: of_nat_less_iff)
  from r0 1 2 show ?thesis by (simp add: r_def q_def)
qed

lemma grid_examples:
  "grid_cols 9 = 3" "grid_rows 9 = Some 3" "grid_cols 10 = 4" "grid_rows 10 = Some 3"
proof -
  show a: "grid_cols 9 = 3" by (rule grid_cols_unique) simp_all
  show b: "grid_cols 10 = 4" by (rule grid_cols_unique) simp_all
  have "nat \<lceil>real 9 / real 3\<rceil> = 3" by (rule ceil_ratio_unique) simp_all
  with a show "grid_rows 9 = Some 3" by (simp add: grid_rows_def)
  have "nat \<lceil>real 10 / real 4\<rceil> = 3" by (rule ceil_ratio_unique) simp_all
  with b show "grid_rows 10 = Some 3" by (simp add: grid_rows_def)
qed


definition layoutOf :: "error + layout \<times> string list \<Rightarrow> layout option" where
  "layoutOf r = (case r of Inr (l, w) \<Rightarrow> Some l | Inl e \<Rightarrow> None)"


lemma lo_nodes_assemble: "lo_nodes (fst (assemble ps cs gs)) = ps"
  by (simp add: assemble_def split: prod.splits)

text \<open>
  Claim C8.  Under the grid layout a list of \<open>n\<close> nodes gets
  \<open>\<lceil>\<surd>n\<rceil>\<close> columns; for \<open>n > 0\<close> the row count is
  \<open>\<lceil>n / columns\<rceil>\<close>, all rows but the last are full and the last is not
  empty.  The node at input index \<open>i\<close> keeps its place in the list and stands in row
  \<open>i div columns\<close>, column \<open>i mod columns\<close>, at the padding plus that many steps of its
  own style's size plus the spacing.  Nine nodes give 3 by 3, ten give 4 columns by 3
  rows.
\<close>

theorem grid_layout:
  fixes nodes :: "node list" and cfg :: layoutConfig
  defines "n \<equiv> length nodes"
  defines "cols \<equiv> grid_cols n"
  defines "sp \<equiv> spacingOr cfg \<lparr>sp_node = 80, sp_rank = 100\<rparr>"
  shows "\<exists>lay warns. generateGridLayout nodes conns groups cfg = Inr (lay, warns)
     \<and> int cols = \<lceil>sqrt (real n)\<rceil>
     \<and> (0 < n \<longrightarrow> (\<exists>rows. grid_rows n = Some rows \<and> int rows = \<lceil>real n / real cols\<rceil>
                          \<and> (rows - 1) * cols < n \<and> n \<le> rows * cols))
     \<and> length (lo_nodes lay) = n
     \<and> (\<forall>i<n. n_id (lo_nodes lay ! i) = n_id (nodes ! i)
            \<and> n_x (lo_nodes lay ! i)
                = canvas_padding + real (i mod cols) * (s_width (styleFor (n_type (nodes ! i))) + sp_node sp)
            \<and> n_y (lo_nodes lay ! i)
                = canvas_padding + real (i div cols) * (s_height (styleFor (n_type (nodes ! i))) + sp_rank sp)
            \<and> i mod cols < cols
            \<and> (\<exists>rows. grid_rows n = Some rows \<and> i div cols < rows))
     \<and> grid_cols 9 = 3 \<and> grid_rows 9 = Some 3 \<and> grid_cols 10 = 4 \<and> grid_rows 10 = Some 3"
proof -
  define ps where "ps = map (\<lambda>(index, m). gridNode sp cols index m) (enumerate 0 nodes)"
  define lay where "lay = fst (assemble ps conns groups)"
  define warns where "warns = snd (assemble ps conns groups)"
  have run: "generateGridLayout nodes conns groups cfg = Inr (lay, warns)"
    by (simp add: generateGridLayout_def Let_def lay_def warns_def ps_def sp_def cols_def n_def)
  have nodes_lay: "lo_nodes lay = ps" by (simp add: lay_def lo_nodes_assemble)
  have len: "length (lo_nodes lay) = n" by (simp add: nodes_lay ps_def n_def)
  have "0 \<le> sqrt (real n)" by simp
  then have "0 \<le> \<lceil>sqrt (real n)\<rceil>" by (simp only: zero_le_ceiling)
  then have c: "int cols = \<lceil>sqrt (real n)\<rceil>" by (simp only: cols_def grid_cols_def int_nat_eq if_True)
  have rows: "\<exists>rows. grid_rows n = Some rows \<and> int rows = \<lceil>real n / real cols\<rceil>
                          \<and> (rows - 1) * cols < n \<and> n \<le> rows * cols" if "0 < n"
  proof -
    from grid_cols_bounds[OF that] have cp: "0 < cols" by (simp add: cols_def)
    from ceil_ratio_bounds[OF cp that] cp show ?thesis
      by (simp add: grid_rows_def cols_def)
  qed
  have each: "n_id (lo_nodes lay ! i) = n_id (nodes ! i)
            \<and> n_x (lo_nodes lay ! i)
                = canvas_padding + real (i mod cols) * (s_width (styleFor (n_type (nodes ! i))) + sp_node sp)
            \<and> n_y (lo_nodes lay ! i)
                = canvas_padding + real (i div cols) * (s_height (styleFor (n_type (nodes ! i))) + sp_rank sp)
            \<and> i mod cols < cols
            \<and> (\<exists>rows. grid_rows n = Some rows \<and> i div cols < rows)" if i: "i < n" for i
  proof -
    from i have npos: "0 < n" by simp
    from grid_cols_bounds[OF npos] have cp: "0 < cols" by (simp add: cols_def)
    from rows[OF npos] obtain r where r: "grid_rows n = Some r" "n \<le> r * cols" by blast
    from i r(2) have "i < r * cols" by simp
    then have d: "i div cols < r" using cp by (simp add: less_mult_imp_div_less)
    have p: "lo_nodes lay ! i = gridNode sp cols i (nodes ! i)"
      using i by (simp add: nodes_lay ps_def n_def nth_enumerate_eq)
    show ?thesis using cp r(1) d
      by (simp add: p gridNode_def Let_def position_def)
  qed
  from run c rows len each grid_examples show ?thesis by blast
qed

definition grid_three :: "node list" where
  "grid_three = [\<lparr>n_id = ''a'', n_type = ''service'', n_label = ''A''\<rparr>,
                 \<lparr>n_id = ''b'', n_type = ''service'', n_label = ''B''\<rparr>,
                 \<lparr>n_id = ''c'', n_type = ''cache'', n_label = ''C''\<rparr>]"

definition no_config :: layoutConfig where
  "no_config = \<lparr>l_type = None, l_direction = None, l_spacing = None\<rparr>"

theorem grid_layout_witness:
  "map_option (\<lambda>l. map (\<lambda>p. (n_id p, n_x p, n_y p)) (lo_nodes l))
      (layoutOf (generateGridLayout grid_three [] [] no_config))
     = Some [(''a'', 50, 50), (''b'', 270, 50), (''c'', 50, 220)]"
proof -
  have c: "grid_cols 3 = 2" by (rule grid_cols_unique) simp_all
  have l3: "length grid_three = 3" by (simp add: grid_three_def)
  from grid_layout[of grid_three "[]" "[]" no_config]
  obtain lay warns where run: "generateGridLayout grid_three [] [] no_config = Inr (lay, warns)"
    and len: "length (lo_nodes lay) = 3"
    and each: "\<forall>i<3. n_id (lo_nodes lay ! i) = n_id (grid_three ! i)
            \<and> n_x (lo_nodes lay ! i)
                = canvas_padding + real (i mod 2) * (s_width (styleFor (n_type (grid_three ! i))) + 80)
            \<and> n_y (lo_nodes lay ! i)
                = canvas_padding + real (i div 2) * (s_height (styleFor (n_type (grid_three ! i))) + 100)"
    unfolding l3 c by (auto simp: spacingOr_def no_config_def)
  have st: "s_width (styleFor ''service'') = 140" "s_height (styleFor ''service'') = 80"
    "s_width (styleFor ''cache'') = 110" "s_height (styleFor ''cache'') = 70"
    by (simp_all add: styleFor_def NODE_STYLES_def)
  from each have e0: "n_id (lo_nodes lay ! 0) = ''a''" "n_x (lo_nodes lay ! 0) = 50" "n_y (lo_nodes lay ! 0) = 50"
    by (simp_all add: grid_three_def canvas_padding_def)
  from each[rule_format, of 1] have e1: "n_id (lo_nodes lay ! 1) = ''b''" "n_x (lo_nodes lay ! 1) = 270" "n_y (lo_nodes lay ! 1) = 50"
    by (simp_all add: grid_three_def canvas_padding_def st)
  from each[rule_format, of 2] have e2: "n_id (lo_nodes lay ! 2) = ''c''" "n_x (lo_nodes lay ! 2) = 50" "n_y (lo_nodes lay ! 2) = 220"
    by (simp_all add: grid_three_def canvas_padding_def st)
  from len obtain p0 p1 p2 where ps: "lo_nodes lay = [p0, p1, p2]"
    by (auto simp: length_Suc_conv numeral_3_eq_3)
  from e0 e1 e2 show ?thesis
    by (simp add: run layoutOf_def ps)
qed

section \<open>The dependency graph, entry by entry\<close>

text \<open>A connection resolves when both of its ends are ids of the given set.\<close>

definition resolvable :: "string set \<Rightarrow> conn \<Rightarrow> bool" where
  "resolvable ids c = (c_from c \<in> ids \<and> c_to c \<in> ids)"

lemma addConnection_apply:
  "addConnection c g i =
     (case g i of
        None \<Rightarrow> None
      | Some d \<Rightarrow>
          if resolvable (dom g) c
          then Some \<lparr>incoming = incoming d @ (if c_to c = i then [c_from c] else []),
                     outgoing = outgoing d @ (if c_from c = i then [c_to c] else [])\<rparr>
          else Some d)"
  by (auto simp: addConnection_def resolvable_def Let_def split: option.splits)

lemma dom_addConnection: "dom (addConnection c g) = dom g"
  by (auto simp: addConnection_apply dom_def split: option.splits if_splits)

lemma dom_fold_addConnection: "dom (fold addConnection cs g) = dom g"
  by (induction cs arbitrary: g) (simp_all add: dom_addConnection)






section \<open>Breadth-first ranks\<close>















section \<open>Layer assignment\<close>








section \<open>The canonical type order\<close>













section \<open>Layer assignment, as claimed\<close>











section \<open>Generated identifiers are distinct\<close>

declare string_of_nat.simps [simp del]

definition digitval :: "char \<Rightarrow> nat" where
  "digitval ch = length (takeWhile (\<lambda>x. x \<noteq> ch) ''0123456789'')"

definition nat_of_string :: "string \<Rightarrow> nat" where
  "nat_of_string str = foldl (\<lambda>a ch. 10 * a + digitval ch) 0 str"

lemma digit_cases:
  assumes "d < 10"
  obtains "d = 0" | "d = 1" | "d = 2" | "d = 3" | "d = 4" | "d = 5" | "d = 6" | "d = 7"
    | "d = 8" | "d = (9::nat)"
proof -
  from assms have "d = 0 \<or> d = 1 \<or> d = 2 \<or> d = 3 \<or> d = 4 \<or> d = 5 \<or> d = 6 \<or> d = 7
                   \<or> d = 8 \<or> d = 9"
    by arith
  with that show thesis by blast
qed

lemma digitval_digit: "d < 10 \<Longrightarrow> digitval (digit d) = d"
  by (erule digit_cases) (simp_all add: digitval_def digit_def)

lemma digit_not_underscore: "d < 10 \<Longrightarrow> digit d \<noteq> CHR ''_''"
  by (erule digit_cases) (simp_all add: digit_def)

lemma nat_of_string_of_nat: "nat_of_string (string_of_nat n) = n"
proof (induction n rule: string_of_nat.induct)
  case (1 n)
  show ?case
  proof (cases "n < 10")
    case True
    then show ?thesis
      by (subst string_of_nat.simps) (simp add: nat_of_string_def digitval_digit)
  next
    case False
    with 1 have ih: "nat_of_string (string_of_nat (n div 10)) = n div 10" by simp
    have "nat_of_string (string_of_nat n) = 10 * nat_of_string (string_of_nat (n div 10)) + digitval (digit (n mod 10))"
      using False by (subst string_of_nat.simps) (simp add: nat_of_string_def)
    also have "\<dots> = 10 * (n div 10) + n mod 10"
      by (simp add: ih digitval_digit)
    finally show ?thesis by simp
  qed
qed

lemma string_of_nat_inj: "string_of_nat n = string_of_nat m \<longleftrightarrow> n = m"
  by (metis nat_of_string_of_nat)

lemma string_of_nat_no_underscore: "CHR ''_'' \<notin> set (string_of_nat n)"
proof (induction n rule: string_of_nat.induct)
  case (1 n)
  show ?case
  proof (cases "n < 10")
    case True
    then show ?thesis
      using digit_not_underscore[of n] by (subst string_of_nat.simps) auto
  next
    case False
    with 1 have "CHR ''_'' \<notin> set (string_of_nat (n div 10))" by simp
    moreover have "digit (n mod 10) \<noteq> CHR ''_''" by (rule digit_not_underscore) simp
    ultimately show ?thesis using False by (subst string_of_nat.simps) auto
  qed
qed

text \<open>The counter an identifier ends in: what follows its last underscore.\<close>

definition idSuffix :: "string \<Rightarrow> string" where
  "idSuffix i = rev (takeWhile (\<lambda>ch. ch \<noteq> CHR ''_'') (rev i))"

lemma idSuffix_generated: "idSuffix (p @ string_of_nat t @ ''_'' @ string_of_nat c) = string_of_nat c"
proof -
  have "takeWhile (\<lambda>ch. ch \<noteq> CHR ''_'') (rev (string_of_nat c) @ CHR ''_'' # rev (p @ string_of_nat t))
          = rev (string_of_nat c)"
    using string_of_nat_no_underscore[of c] by (intro takeWhile_tail[THEN trans] takeWhile_eq_all_conv[THEN iffD2]) auto
  then show ?thesis by (simp add: idSuffix_def)
qed

section \<open>What the renderer emits\<close>

lemma generateId_eq:
  "generateId now s =
     (string_of_nat (now (clockReads s)) @ ''_'' @ string_of_nat (Suc (idCounter s)),
      s\<lparr>clockReads := Suc (clockReads s), idCounter := Suc (idCounter s)\<rparr>)"
  by (simp add: generateId_def Date_now_def Let_def)

lemma idSuffix_Cons: "CHR ''_'' \<in> set r \<Longrightarrow> idSuffix (ch # r) = idSuffix r"
  by (simp add: idSuffix_def takeWhile_append1[where x = "CHR ''_''"])

lemma idSuffix_base: "idSuffix (string_of_nat t @ CHR ''_'' # string_of_nat c) = string_of_nat c"
  using idSuffix_generated[of "[]" t c] by simp

definition numbered :: "rstate \<Rightarrow> element list \<Rightarrow> rstate \<Rightarrow> bool" where
  "numbered s es s' =
     (map (\<lambda>e. idSuffix (e_id e)) es = map string_of_nat [Suc (idCounter s) ..< Suc (idCounter s')]
      \<and> idCounter s \<le> idCounter s')"

definition isShape :: "element \<Rightarrow> bool" where
  "isShape e = (e_type e = ''rectangle'' \<or> e_type e = ''ellipse'' \<or> e_type e = ''diamond'')"

definition isText :: "element \<Rightarrow> bool" where
  "isText e = (e_type e = ''text'')"

definition isArrow :: "element \<Rightarrow> bool" where
  "isArrow e = (e_type e = ''arrow'')"

lemma shapeElement_simps [simp]:
  "e_id (shapeElement i t n) = i" "isShape (shapeElement i t n)" "\<not> isText (shapeElement i t n)"
  "\<not> isArrow (shapeElement i t n)"
  "e_boundElements (shapeElement i t n) = Some [(''text'', t)]"
  "e_containerId (shapeElement i t n) = None"
  "e_x (shapeElement i t n) = n_x n" "e_y (shapeElement i t n) = n_y n"
  "e_width (shapeElement i t n) = n_width n" "e_height (shapeElement i t n) = n_height n"
  "e_startBinding (shapeElement i t n) = None" "e_endBinding (shapeElement i t n) = None"
  by (simp_all add: shapeElement_def isShape_def isText_def isArrow_def getExcalidrawShapeType_def)

lemma textElement_simps [simp]:
  "e_id (textElement t i n) = t" "isText (textElement t i n)" "\<not> isShape (textElement t i n)"
  "\<not> isArrow (textElement t i n)"
  "e_containerId (textElement t i n) = Some i" "e_boundElements (textElement t i n) = None"
  "e_text (textElement t i n) = Some (n_label n)"
  by (simp_all add: textElement_def isShape_def isText_def isArrow_def Let_def)

lemma groupElement_simps [simp]:
  "e_id (groupElement i g) = i" "isShape (groupElement i g)" "\<not> isText (groupElement i g)"
  "\<not> isArrow (groupElement i g)"
  "e_boundElements (groupElement i g) = Some []" "e_containerId (groupElement i g) = None"
  "e_x (groupElement i g) = g_x g" "e_y (groupElement i g) = g_y g"
  "e_width (groupElement i g) = g_width g" "e_height (groupElement i g) = g_height g"
  by (simp_all add: groupElement_def isShape_def isText_def isArrow_def)

lemma labelElement_simps [simp]:
  "e_id (labelElement i g) = i" "isText (labelElement i g)" "\<not> isShape (labelElement i g)"
  "\<not> isArrow (labelElement i g)"
  "e_containerId (labelElement i g) = None" "e_text (labelElement i g) = Some (g_label g)"
  by (simp_all add: labelElement_def isShape_def isText_def isArrow_def)

lemma arrowElement_simps [simp]:
  "e_id (arrowElement i c) = i" "isArrow (arrowElement i c)" "\<not> isShape (arrowElement i c)"
  "\<not> isText (arrowElement i c)"
  "e_containerId (arrowElement i c) = None"
  "e_startBinding (arrowElement i c) = Some \<lparr>b_elementId = c_from c, b_focus = 0, b_gap = 0\<rparr>"
  "e_endBinding (arrowElement i c) = Some \<lparr>b_elementId = c_to c, b_focus = 0, b_gap = 0\<rparr>"
  by (simp_all add: arrowElement_def isShape_def isText_def isArrow_def Let_def)

lemma arrowElement_rev_simps [simp]:
  "e_id (arrowElement_rev i c) = i" "isArrow (arrowElement_rev i c)"
  "e_startBinding (arrowElement_rev i c) = None"
  "e_endBinding (arrowElement_rev i c) = None"
  "e_boundElements (arrowElement_rev i c) = None"
  by (simp_all add: arrowElement_rev_def isArrow_def Let_def)

lemma connectionLabel_simps [simp]:
  "e_id (connectionLabel i l x y) = i" "isText (connectionLabel i l x y)"
  "\<not> isShape (connectionLabel i l x y)" "\<not> isArrow (connectionLabel i l x y)"
  "e_containerId (connectionLabel i l x y) = None" "e_text (connectionLabel i l x y) = Some l"
  by (simp_all add: connectionLabel_def isShape_def isText_def isArrow_def Let_def)

lemma upt_two: "[Suc a ..< Suc (Suc (Suc a))] = [Suc a, Suc (Suc a)]"
  by (simp add: upt_rec)

lemma upt_one: "[Suc a ..< Suc (Suc a)] = [Suc a]"
  by (simp add: upt_rec)

definition stamp :: "string \<Rightarrow> (nat \<Rightarrow> nat) \<Rightarrow> nat \<Rightarrow> nat \<Rightarrow> string" where
  "stamp p now k c = p @ string_of_nat (now k) @ ''_'' @ string_of_nat c"

lemma idSuffix_stamp [simp]: "idSuffix (stamp p now k c) = string_of_nat c"
  unfolding stamp_def by (rule idSuffix_generated)

lemma renderNode_run:
  "renderNode now n s =
     ([shapeElement (stamp ''node_'' now (Suc (clockReads s)) (Suc (idCounter s)))
                    (stamp ''text_'' now (Suc (Suc (clockReads s))) (Suc (Suc (idCounter s)))) n,
       textElement (stamp ''text_'' now (Suc (Suc (clockReads s))) (Suc (Suc (idCounter s))))
                   (stamp ''node_'' now (Suc (clockReads s)) (Suc (idCounter s))) n],
      s\<lparr>clockReads := Suc (Suc (Suc (clockReads s))), idCounter := Suc (Suc (idCounter s))\<rparr>)"
  by (simp add: renderNode_def generateId_eq Date_now_def Let_def stamp_def)

lemma renderGroup_run:
  "renderGroup now grp s =
     ([groupElement (stamp ''group_'' now (Suc (clockReads s)) (Suc (idCounter s))) grp,
       labelElement (stamp ''group_label_'' now (Suc (Suc (clockReads s))) (Suc (Suc (idCounter s)))) grp],
      s\<lparr>clockReads := Suc (Suc (Suc (clockReads s))), idCounter := Suc (Suc (idCounter s))\<rparr>)"
  by (simp add: renderGroup_def generateId_eq Date_now_def Let_def stamp_def)

lemma renderConnection_run:
  "renderConnection now c s =
     (if c_label c = None \<or> c_label c = Some []
      then ([arrowElement (stamp ''conn_'' now (Suc (clockReads s)) (Suc (idCounter s))) c],
            s\<lparr>clockReads := Suc (Suc (clockReads s)), idCounter := Suc (idCounter s)\<rparr>)
      else (case labelOffset (pt_x (c_toPoint c) - pt_x (c_fromPoint c))
                             (pt_y (c_toPoint c) - pt_y (c_fromPoint c)) 15 of
              (offsetX, offsetY) \<Rightarrow>
                ([arrowElement (stamp ''conn_'' now (Suc (clockReads s)) (Suc (idCounter s))) c,
                  connectionLabel (stamp ''label_'' now (Suc (Suc (clockReads s))) (Suc (Suc (idCounter s))))
                    (the (c_label c))
                    ((pt_x (c_fromPoint c) + pt_x (c_toPoint c)) / 2 + offsetX)
                    ((pt_y (c_fromPoint c) + pt_y (c_toPoint c)) / 2 + offsetY)],
                 s\<lparr>clockReads := Suc (Suc (Suc (clockReads s))), idCounter := Suc (Suc (idCounter s))\<rparr>)))"
  by (auto simp: renderConnection_def generateId_eq Date_now_def Let_def stamp_def
           split: option.splits prod.splits)

lemma renderNode_eq:
  "\<exists>sid tid s'. renderNode now n s = ([shapeElement sid tid n, textElement tid sid n], s')
      \<and> numbered s [shapeElement sid tid n, textElement tid sid n] s'"
  unfolding renderNode_run by (intro exI conjI, rule refl) (simp add: numbered_def upt_two)

lemma renderGroup_eq:
  "\<exists>gid lid s'. renderGroup now grp s = ([groupElement gid grp, labelElement lid grp], s')
      \<and> numbered s [groupElement gid grp, labelElement lid grp] s'"
  unfolding renderGroup_run by (intro exI conjI, rule refl) (simp add: numbered_def upt_two)

lemma renderConnection_eq:
  "\<exists>aid lbls s'. renderConnection now c s = (arrowElement aid c # lbls, s')
      \<and> (\<forall>l \<in> set lbls. isText l \<and> e_containerId l = None)
      \<and> numbered s (arrowElement aid c # lbls) s'"
proof (cases "c_label c = None \<or> c_label c = Some []")
  case True
  show ?thesis
    unfolding renderConnection_run if_P[OF True]
    by (intro exI conjI, rule refl) (simp_all add: numbered_def upt_one)
next
  case False
  obtain ox oy where o: "labelOffset (pt_x (c_toPoint c) - pt_x (c_fromPoint c))
                            (pt_y (c_toPoint c) - pt_y (c_fromPoint c)) 15 = (ox, oy)"
    by (cases "labelOffset (pt_x (c_toPoint c) - pt_x (c_fromPoint c))
                            (pt_y (c_toPoint c) - pt_y (c_fromPoint c)) 15") auto
  show ?thesis
    unfolding renderConnection_run if_not_P[OF False] o prod.case
    by (intro exI conjI, rule refl) (simp_all add: numbered_def upt_two)
qed

lemma numbered_Nil [simp]: "numbered s [] s"
  by (simp add: numbered_def)

lemma upt_split: "a \<le> b \<Longrightarrow> b \<le> c \<Longrightarrow> [a ..< c] = [a ..< b] @ [b ..< c]"
  using upt_add_eq_append[of a b "c - b"] by simp

lemma numbered_append:
  assumes "numbered s es s1" "numbered s1 es' s2"
  shows "numbered s (es @ es') s2"
proof -
  from assms have le: "idCounter s \<le> idCounter s1" "idCounter s1 \<le> idCounter s2"
    by (simp_all add: numbered_def)
  then have "[Suc (idCounter s) ..< Suc (idCounter s2)]
               = [Suc (idCounter s) ..< Suc (idCounter s1)] @ [Suc (idCounter s1) ..< Suc (idCounter s2)]"
    by (intro upt_split) simp_all
  with assms le show ?thesis by (simp add: numbered_def)
qed

lemma numbered_distinct:
  assumes "numbered s es s'"
  shows "distinct (map e_id es)"
proof -
  have "distinct (map string_of_nat [Suc (idCounter s) ..< Suc (idCounter s')])"
    by (simp add: distinct_map inj_on_def string_of_nat_inj)
  with assms have "distinct (map (\<lambda>e. idSuffix (e_id e)) es)" by (simp add: numbered_def)
  then have "distinct (map (idSuffix \<circ> e_id) es)" by (simp add: comp_def)
  then show ?thesis by (simp only: map_map[symmetric] distinct_map)
qed

definition groupPair :: "string \<times> string \<times> pgroup \<Rightarrow> element list" where
  "groupPair t = (case t of (gid, lid, grp) \<Rightarrow> [groupElement gid grp, labelElement lid grp])"

definition nodePair :: "string \<times> string \<times> pnode \<Rightarrow> element list" where
  "nodePair t = (case t of (sid, tid, n) \<Rightarrow> [shapeElement sid tid n, textElement tid sid n])"

definition connItems :: "string \<times> element list \<times> pconn \<Rightarrow> element list" where
  "connItems t = (case t of (aid, lbls, c) \<Rightarrow> arrowElement aid c # lbls)"

lemma pair_simps [simp]:
  "groupPair (gid, lid, grp) = [groupElement gid grp, labelElement lid grp]"
  "nodePair (sid, tid, n) = [shapeElement sid tid n, textElement tid sid n]"
  "connItems (aid, lbls, c) = arrowElement aid c # lbls"
  by (simp_all add: groupPair_def nodePair_def connItems_def)

lemma renderEach_groups:
  "\<exists>gs s'. renderEach (renderGroup now) groups s = (concat (map groupPair gs), s')
      \<and> map (\<lambda>t. snd (snd t)) gs = groups
      \<and> numbered s (concat (map groupPair gs)) s'"
proof (induction groups arbitrary: s)
  case Nil
  show ?case by (intro exI[of _ "[]"]) simp
next
  case (Cons g groups)
  from renderGroup_eq[of now g s] obtain gid lid s1 where
    1: "renderGroup now g s = ([groupElement gid g, labelElement lid g], s1)"
    and n1: "numbered s [groupElement gid g, labelElement lid g] s1" by blast
  from Cons.IH[of s1] obtain gs s2 where
    2: "renderEach (renderGroup now) groups s1 = (concat (map groupPair gs), s2)"
    and m: "map (\<lambda>t. snd (snd t)) gs = groups"
    and n2: "numbered s1 (concat (map groupPair gs)) s2" by blast
  show ?case
    using 1 2 m numbered_append[OF n1 n2]
    by (intro exI[of _ "(gid, lid, g) # gs"] exI[of _ s2]) simp
qed

lemma renderEach_nodes:
  "\<exists>ps s'. renderEach (renderNode now) nodes s = (concat (map nodePair ps), s')
      \<and> map (\<lambda>t. snd (snd t)) ps = nodes
      \<and> numbered s (concat (map nodePair ps)) s'"
proof (induction nodes arbitrary: s)
  case Nil
  show ?case by (intro exI[of _ "[]"]) simp
next
  case (Cons n nodes)
  from renderNode_eq[of now n s] obtain sid tid s1 where
    1: "renderNode now n s = ([shapeElement sid tid n, textElement tid sid n], s1)"
    and n1: "numbered s [shapeElement sid tid n, textElement tid sid n] s1" by blast
  from Cons.IH[of s1] obtain ps s2 where
    2: "renderEach (renderNode now) nodes s1 = (concat (map nodePair ps), s2)"
    and m: "map (\<lambda>t. snd (snd t)) ps = nodes"
    and n2: "numbered s1 (concat (map nodePair ps)) s2" by blast
  show ?case
    using 1 2 m numbered_append[OF n1 n2]
    by (intro exI[of _ "(sid, tid, n) # ps"] exI[of _ s2]) simp
qed

lemma renderEach_connections:
  "\<exists>cs s'. renderEach (renderConnection now) conns s = (concat (map connItems cs), s')
      \<and> map (\<lambda>t. snd (snd t)) cs = conns
      \<and> (\<forall>t \<in> set cs. \<forall>l \<in> set (fst (snd t)). isText l \<and> e_containerId l = None)
      \<and> numbered s (concat (map connItems cs)) s'"
proof (induction conns arbitrary: s)
  case Nil
  show ?case by (intro exI[of _ "[]"]) simp
next
  case (Cons c conns)
  from renderConnection_eq[of now c s] obtain aid lbls s1 where
    1: "renderConnection now c s = (arrowElement aid c # lbls, s1)"
    and t1: "\<forall>l \<in> set lbls. isText l \<and> e_containerId l = None"
    and n1: "numbered s (arrowElement aid c # lbls) s1" by blast
  from Cons.IH[of s1] obtain cs s2 where
    2: "renderEach (renderConnection now) conns s1 = (concat (map connItems cs), s2)"
    and m: "map (\<lambda>t. snd (snd t)) cs = conns"
    and t2: "\<forall>t \<in> set cs. \<forall>l \<in> set (fst (snd t)). isText l \<and> e_containerId l = None"
    and n2: "numbered s1 (concat (map connItems cs)) s2" by blast
  show ?case
    using 1 2 m t1 t2 numbered_append[OF n1 n2]
    by (intro exI[of _ "(aid, lbls, c) # cs"] exI[of _ s2]) simp
qed

lemma render_structure:
  "\<exists>gs ps cs s'. render now lay s
        = (envelope (concat (map groupPair gs) @ concat (map nodePair ps) @ concat (map connItems cs)), s')
      \<and> map (\<lambda>t. snd (snd t)) gs = lo_groups lay
      \<and> map (\<lambda>t. snd (snd t)) ps = lo_nodes lay
      \<and> map (\<lambda>t. snd (snd t)) cs = lo_connections lay
      \<and> (\<forall>t \<in> set cs. \<forall>l \<in> set (fst (snd t)). isText l \<and> e_containerId l = None)
      \<and> distinct (map e_id (concat (map groupPair gs) @ concat (map nodePair ps) @ concat (map connItems cs)))"
proof -
  from renderEach_groups[of now "lo_groups lay" s] obtain gs s1 where
    g: "renderEach (renderGroup now) (lo_groups lay) s = (concat (map groupPair gs), s1)"
       "map (\<lambda>t. snd (snd t)) gs = lo_groups lay"
       "numbered s (concat (map groupPair gs)) s1" by blast
  from renderEach_nodes[of now "lo_nodes lay" s1] obtain ps s2 where
    n: "renderEach (renderNode now) (lo_nodes lay) s1 = (concat (map nodePair ps), s2)"
       "map (\<lambda>t. snd (snd t)) ps = lo_nodes lay"
       "numbered s1 (concat (map nodePair ps)) s2" by blast
  from renderEach_connections[of now "lo_connections lay" s2] obtain cs s3 where
    c: "renderEach (renderConnection now) (lo_connections lay) s2 = (concat (map connItems cs), s3)"
       "map (\<lambda>t. snd (snd t)) cs = lo_connections lay"
       "\<forall>t \<in> set cs. \<forall>l \<in> set (fst (snd t)). isText l \<and> e_containerId l = None"
       "numbered s2 (concat (map connItems cs)) s3" by blast
  have "numbered s (concat (map groupPair gs) @ concat (map nodePair ps) @ concat (map connItems cs)) s3"
    by (intro numbered_append[OF g(3)] numbered_append[OF n(3)] c(4))
  then have d: "distinct (map e_id (concat (map groupPair gs) @ concat (map nodePair ps) @ concat (map connItems cs)))"
    by (rule numbered_distinct)
  have r: "render now lay s
        = (envelope (concat (map groupPair gs) @ concat (map nodePair ps) @ concat (map connItems cs)), s3)"
    by (simp add: render_def g(1) n(1) c(1))
  from r g(2) n(2) c(2,3) d show ?thesis by blast
qed

section \<open>Shapes and their labels\<close>

text \<open>The texts bound to a primitive, and the shapes a text names as its container.\<close>

definition boundTexts :: "element list \<Rightarrow> element \<Rightarrow> element list" where
  "boundTexts els sh = filter (\<lambda>t. isText t \<and> e_containerId t = Some (e_id sh)) els"

definition containersOf :: "element list \<Rightarrow> element \<Rightarrow> element list" where
  "containersOf els t = filter (\<lambda>sh. isShape sh \<and> e_containerId t = Some (e_id sh)) els"

lemma filter_unique:
  "distinct (map f xs) \<Longrightarrow> x \<in> set xs \<Longrightarrow> filter (\<lambda>y. f y = f x) xs = [x]"
proof (induction xs)
  case Nil
  then show ?case by simp
next
  case (Cons a xs)
  show ?case
  proof (cases "a = x")
    case True
    from Cons.prems(1) True have "f x \<notin> f ` set xs" by simp
    then have "\<forall>y \<in> set xs. f y \<noteq> f x" by (metis imageI)
    then have "filter (\<lambda>y. f y = f x) xs = []"
      by (simp add: filter_empty_conv)
    with True show ?thesis by simp
  next
    case False
    with Cons.prems have x: "x \<in> set xs" by simp
    with Cons.prems(1) have "f a \<noteq> f x" by auto
    moreover from Cons.prems(1) have "distinct (map f xs)" by simp
    ultimately show ?thesis using Cons.IH x by simp
  qed
qed




lemma in_groups:
  assumes "x \<in> set (concat (map groupPair gs))"
  obtains gid lid grp where "x = groupElement gid grp \<or> x = labelElement lid grp"
proof -
  from assms obtain g where g: "g \<in> set gs" "x \<in> set (groupPair g)" by auto
  obtain gid lid grp where e: "g = (gid, lid, grp)" by (cases g) auto
  from g(2) e have "x = groupElement gid grp \<or> x = labelElement lid grp" by auto
  then show thesis by (rule that)
qed

lemma in_nodes:
  assumes "x \<in> set (concat (map nodePair ps))"
  obtains sid tid n where "x = shapeElement sid tid n \<or> x = textElement tid sid n"
    "shapeElement sid tid n \<in> set (concat (map nodePair ps))"
    "textElement tid sid n \<in> set (concat (map nodePair ps))"
proof -
  from assms obtain p where p: "p \<in> set ps" "x \<in> set (nodePair p)" by auto
  obtain sid tid n where e: "p = (sid, tid, n)" by (cases p) auto
  from p e have 1: "x = shapeElement sid tid n \<or> x = textElement tid sid n" by auto
  from p(1) e have m: "(sid, tid, n) \<in> set ps" by simp
  have 2: "shapeElement sid tid n \<in> set (concat (map nodePair ps))"
    by (simp, rule bexI[OF _ m], simp)
  have 3: "textElement tid sid n \<in> set (concat (map nodePair ps))"
    by (simp, rule bexI[OF _ m], simp)
  from 1 2 3 show thesis by (rule that)
qed

lemma in_conns:
  assumes "\<forall>t \<in> set cs. \<forall>l \<in> set (fst (snd t)). isText l \<and> e_containerId l = None"
    and "x \<in> set (concat (map connItems cs))"
  shows "(\<exists>aid c. x = arrowElement aid c) \<or> (isText x \<and> e_containerId x = None)"
proof -
  from assms(2) obtain t where t: "t \<in> set cs" "x \<in> set (connItems t)" by auto
  obtain aid lbls c where e: "t = (aid, lbls, c)" by (cases t) auto
  from t e have "x = arrowElement aid c \<or> x \<in> set lbls" by auto
  moreover from assms(1) t(1) e have "\<forall>l \<in> set lbls. isText l \<and> e_containerId l = None" by auto
  ultimately show ?thesis by blast
qed



lemma distinct_ids_inj:
  "distinct (map e_id els) \<Longrightarrow> x \<in> set els \<Longrightarrow> y \<in> set els \<Longrightarrow> e_id x = e_id y \<Longrightarrow> x = y"
  by (auto simp: distinct_map inj_on_def)

lemma binding_core:
  fixes gs :: "(string \<times> string \<times> pgroup) list" and ps :: "(string \<times> string \<times> pnode) list"
    and cs :: "(string \<times> element list \<times> pconn) list"
  defines "G \<equiv> concat (map groupPair gs)"
  defines "N \<equiv> concat (map nodePair ps)"
  defines "C \<equiv> concat (map connItems cs)"
  defines "els \<equiv> G @ N @ C"
  assumes lbls: "\<forall>t \<in> set cs. \<forall>l \<in> set (fst (snd t)). isText l \<and> e_containerId l = None"
    and dist: "distinct (map e_id els)"
  shows "(\<forall>sh\<in>set N. isShape sh \<longrightarrow>
            (\<exists>t\<in>set N. isText t \<and> boundTexts els sh = [t]
                \<and> e_boundElements sh = Some [(''text'', e_id t)]
                \<and> e_containerId t = Some (e_id sh)
                \<and> containersOf els t = [sh]))
       \<and> (\<forall>t\<in>set els. isText t \<and> e_containerId t \<noteq> None \<longrightarrow>
            (\<exists>sh\<in>set N. isShape sh \<and> containersOf els t = [sh] \<and> boundTexts els sh = [t]))
       \<and> (\<forall>b\<in>set G. isShape b \<longrightarrow> boundTexts els b = [] \<and> e_boundElements b = Some [])
       \<and> (\<forall>t\<in>set (G @ C). isText t \<longrightarrow> e_containerId t = None)"
proof -
  have K1: "\<exists>tid n. x = textElement tid i n \<and> shapeElement i tid n \<in> set N \<and> x \<in> set N"
    if x: "x \<in> set els" "isText x" "e_containerId x = Some i" for x i
  proof -
    from x(1) consider "x \<in> set G" | "x \<in> set N" | "x \<in> set C" by (auto simp: els_def)
    then show ?thesis
    proof cases
      case 1
      then obtain gid lid grp where "x = groupElement gid grp \<or> x = labelElement lid grp"
        unfolding G_def by (rule in_groups)
      with x(2,3) show ?thesis by auto
    next
      case 2
      then obtain sid tid n where e: "x = shapeElement sid tid n \<or> x = textElement tid sid n"
        "shapeElement sid tid n \<in> set N"
        unfolding N_def by (rule in_nodes)
      from e(1) x(2) have xt: "x = textElement tid sid n" by auto
      with x(3) have "sid = i" by simp
      with xt e(2) 2 show ?thesis by blast
    next
      case 3
      from in_conns[OF lbls 3[unfolded C_def]] x(2,3) show ?thesis by auto
    qed
  qed
  have pair: "boundTexts els (shapeElement sid tid n) = [textElement tid sid n]
            \<and> containersOf els (textElement tid sid n) = [shapeElement sid tid n]"
    if sh: "shapeElement sid tid n \<in> set N" and tx: "textElement tid sid n \<in> set N" for sid tid n
  proof -
    let ?sh = "shapeElement sid tid n" and ?t = "textElement tid sid n"
    from sh tx have mem: "?sh \<in> set els" "?t \<in> set els" by (simp_all add: els_def)
    have a: "(isText x \<and> e_containerId x = Some (e_id ?sh)) \<longleftrightarrow> e_id x = e_id ?t"
      if x: "x \<in> set els" for x
    proof
      assume "isText x \<and> e_containerId x = Some (e_id ?sh)"
      then have "isText x" "e_containerId x = Some sid" by simp_all
      from K1[OF x this] obtain tid' n' where
        xe: "x = textElement tid' sid n'" and s': "shapeElement sid tid' n' \<in> set N" by blast
      from s' have "shapeElement sid tid' n' \<in> set els" by (simp add: els_def)
      from distinct_ids_inj[OF dist this mem(1)] have "shapeElement sid tid' n' = ?sh" by simp
      then have "e_boundElements (shapeElement sid tid' n') = e_boundElements ?sh" by simp
      then have "tid' = tid" by simp
      with xe show "e_id x = e_id ?t" by simp
    next
      assume "e_id x = e_id ?t"
      from distinct_ids_inj[OF dist x mem(2) this] show "isText x \<and> e_containerId x = Some (e_id ?sh)"
        by simp
    qed
    have b: "(isShape x \<and> e_containerId ?t = Some (e_id x)) \<longleftrightarrow> e_id x = e_id ?sh"
      if x: "x \<in> set els" for x
    proof
      assume "isShape x \<and> e_containerId ?t = Some (e_id x)"
      then show "e_id x = e_id ?sh" by simp
    next
      assume "e_id x = e_id ?sh"
      from distinct_ids_inj[OF dist x mem(1) this] show "isShape x \<and> e_containerId ?t = Some (e_id x)"
        by simp
    qed
    have "boundTexts els ?sh = filter (\<lambda>x. e_id x = e_id ?t) els"
      unfolding boundTexts_def using a by (intro filter_cong refl) blast
    also have "\<dots> = [?t]" by (rule filter_unique[OF dist mem(2)])
    finally have 1: "boundTexts els ?sh = [?t]" .
    have "containersOf els ?t = filter (\<lambda>x. e_id x = e_id ?sh) els"
      unfolding containersOf_def using b by (intro filter_cong refl) blast
    also have "\<dots> = [?sh]" by (rule filter_unique[OF dist mem(1)])
    finally have 2: "containersOf els ?t = [?sh]" .
    from 1 2 show ?thesis by simp
  qed
  have A: "\<forall>sh\<in>set N. isShape sh \<longrightarrow>
            (\<exists>t\<in>set N. isText t \<and> boundTexts els sh = [t]
                \<and> e_boundElements sh = Some [(''text'', e_id t)]
                \<and> e_containerId t = Some (e_id sh)
                \<and> containersOf els t = [sh])"
  proof (intro ballI impI)
    fix sh assume m: "sh \<in> set N" and s: "isShape sh"
    from m obtain sid tid n where e: "sh = shapeElement sid tid n \<or> sh = textElement tid sid n"
      "shapeElement sid tid n \<in> set N" "textElement tid sid n \<in> set N"
      unfolding N_def by (rule in_nodes)
    from e(1) s have she: "sh = shapeElement sid tid n" by auto
    from pair[OF e(2,3)] she e(3)
    show "\<exists>t\<in>set N. isText t \<and> boundTexts els sh = [t]
                \<and> e_boundElements sh = Some [(''text'', e_id t)]
                \<and> e_containerId t = Some (e_id sh)
                \<and> containersOf els t = [sh]"
      by (intro bexI[of _ "textElement tid sid n"]) simp_all
  qed
  have B: "\<forall>t\<in>set els. isText t \<and> e_containerId t \<noteq> None \<longrightarrow>
            (\<exists>sh\<in>set N. isShape sh \<and> containersOf els t = [sh] \<and> boundTexts els sh = [t])"
  proof (intro ballI impI)
    fix t assume m: "t \<in> set els" and h: "isText t \<and> e_containerId t \<noteq> None"
    then obtain i where i: "e_containerId t = Some i" by auto
    from K1[OF m _ i] h obtain tid n where
      e: "t = textElement tid i n" "shapeElement i tid n \<in> set N" "t \<in> set N" by blast
    from pair[OF e(2)] e(1,3) e(2)
    show "\<exists>sh\<in>set N. isShape sh \<and> containersOf els t = [sh] \<and> boundTexts els sh = [t]"
      by (intro bexI[of _ "shapeElement i tid n"]) simp_all
  qed
  have Cc: "\<forall>b\<in>set G. isShape b \<longrightarrow> boundTexts els b = [] \<and> e_boundElements b = Some []"
  proof (intro ballI impI)
    fix b assume m: "b \<in> set G" and s: "isShape b"
    from m obtain gid lid grp where "b = groupElement gid grp \<or> b = labelElement lid grp"
      unfolding G_def by (rule in_groups)
    with s have be: "b = groupElement gid grp" by auto
    have "\<not> (isText x \<and> e_containerId x = Some (e_id b))" if x: "x \<in> set els" for x
    proof
      assume "isText x \<and> e_containerId x = Some (e_id b)"
      then have "isText x" "e_containerId x = Some gid" by (simp_all add: be)
      from K1[OF x this] obtain tid n where s': "shapeElement gid tid n \<in> set N" by blast
      then have "shapeElement gid tid n \<in> set els" by (simp add: els_def)
      moreover from m have "b \<in> set els" by (simp add: els_def)
      ultimately have "shapeElement gid tid n = b"
        by (rule distinct_ids_inj[OF dist]) (simp add: be)
      then have "e_boundElements (shapeElement gid tid n) = e_boundElements (groupElement gid grp)"
        by (simp add: be)
      then show False by simp
    qed
    then have "boundTexts els b = []"
      unfolding boundTexts_def by (simp only: filter_empty_conv) blast
    with be show "boundTexts els b = [] \<and> e_boundElements b = Some []" by simp
  qed
  have D: "\<forall>t\<in>set (G @ C). isText t \<longrightarrow> e_containerId t = None"
  proof (intro ballI impI)
    fix t assume m: "t \<in> set (G @ C)" and tx: "isText t"
    from m consider "t \<in> set G" | "t \<in> set C" by auto
    then show "e_containerId t = None"
    proof cases
      case 1
      then obtain gid lid grp where "t = groupElement gid grp \<or> t = labelElement lid grp"
        unfolding G_def by (rule in_groups)
      then show ?thesis by auto
    next
      case 2
      from in_conns[OF lbls 2[unfolded C_def]] show ?thesis by auto
    qed
  qed
  from A B Cc D show ?thesis by (intro conjI)
qed

section \<open>Every strategy lays out every architecture\<close>

lemma n_id_position [simp]: "n_id (position n x y st) = n_id n"
  by (simp add: position_def)

lemma n_id_positionNode [simp]: "n_id (positionNode d sp len li ni n) = n_id n"
  by (simp add: positionNode_def Let_def)

lemma n_id_gridNode [simp]: "n_id (gridNode sp cols i n) = n_id n"
  by (simp add: gridNode_def Let_def)






text \<open>The positioned connection of a connection whose two ends resolve.\<close>

definition routed :: "pnode list \<Rightarrow> conn \<Rightarrow> pconn" where
  "routed ps c =
     (let connectionPoints = calculateOptimalConnectionPoints (the (nodeMapOf ps (c_from c)))
                                                             (the (nodeMapOf ps (c_to c)))
      in \<lparr>c_id = Some (orElse (c_id c) (''conn_'' @ c_from c @ ''_'' @ c_to c)),
          c_from = c_from c, c_to = c_to c, c_type = c_type c, c_label = c_label c,
          c_bidirectional = c_bidirectional c,
          c_fromPoint = cp_fromPoint connectionPoints,
          c_toPoint = cp_toPoint connectionPoints,
          c_path = cp_path connectionPoints\<rparr>)"














lemma filter_resolvable_idem:
  "ids' = ids \<Longrightarrow> filter (resolvable ids') (filter (resolvable ids) cs) = filter (resolvable ids) cs"
  by simp


section \<open>Arrows and counts\<close>

lemma filter_arrows_groups: "filter isArrow (concat (map groupPair gs)) = []"
proof -
  have "\<not> isArrow x" if "x \<in> set (concat (map groupPair gs))" for x
  proof -
    from that obtain gid lid grp where "x = groupElement gid grp \<or> x = labelElement lid grp"
      by (rule in_groups)
    then show ?thesis by auto
  qed
  then show ?thesis by (auto simp: filter_empty_conv)
qed

lemma filter_arrows_nodes: "filter isArrow (concat (map nodePair ps)) = []"
proof -
  have "\<not> isArrow x" if "x \<in> set (concat (map nodePair ps))" for x
  proof -
    from that obtain sid tid n where "x = shapeElement sid tid n \<or> x = textElement tid sid n"
      by (rule in_nodes)
    then show ?thesis by auto
  qed
  then show ?thesis by (auto simp: filter_empty_conv)
qed

lemma notArrow_text: "isText e \<Longrightarrow> \<not> isArrow e"
  by (auto simp: isText_def isArrow_def)

lemma filter_arrows_conns:
  assumes "\<forall>t \<in> set cs. \<forall>l \<in> set (fst (snd t)). isText l \<and> e_containerId l = None"
  shows "filter isArrow (concat (map connItems cs)) = map (\<lambda>t. arrowElement (fst t) (snd (snd t))) cs"
  using assms
proof (induction cs)
  case Nil
  show ?case by simp
next
  case (Cons t cs)
  obtain aid lbls c where e: "t = (aid, lbls, c)" by (cases t) auto
  from Cons.prems e have "\<forall>l \<in> set lbls. \<not> isArrow l" by (auto simp: notArrow_text)
  then have f: "filter isArrow lbls = []" by (auto simp: filter_empty_conv)
  from Cons.prems have p: "\<forall>t \<in> set cs. \<forall>l \<in> set (fst (snd t)). isText l \<and> e_containerId l = None"
    by simp
  show ?case unfolding e by (simp add: Cons.IH[OF p] f)
qed

lemma render_elements:
  "\<exists>gs ps cs. d_elements (fst (render now lay s))
        = concat (map groupPair gs) @ concat (map nodePair ps) @ concat (map connItems cs)
      \<and> map (\<lambda>t. snd (snd t)) gs = lo_groups lay
      \<and> map (\<lambda>t. snd (snd t)) ps = lo_nodes lay
      \<and> map (\<lambda>t. snd (snd t)) cs = lo_connections lay
      \<and> (\<forall>t \<in> set cs. \<forall>l \<in> set (fst (snd t)). isText l \<and> e_containerId l = None)
      \<and> distinct (map e_id (d_elements (fst (render now lay s))))
      \<and> fst (render now lay s) = envelope (d_elements (fst (render now lay s)))"
proof -
  from render_structure[of now lay s] obtain gs ps cs s' where
    H: "render now lay s
        = (envelope (concat (map groupPair gs) @ concat (map nodePair ps) @ concat (map connItems cs)), s')
      \<and> map (\<lambda>t. snd (snd t)) gs = lo_groups lay
      \<and> map (\<lambda>t. snd (snd t)) ps = lo_nodes lay
      \<and> map (\<lambda>t. snd (snd t)) cs = lo_connections lay
      \<and> (\<forall>t \<in> set cs. \<forall>l \<in> set (fst (snd t)). isText l \<and> e_containerId l = None)
      \<and> distinct (map e_id (concat (map groupPair gs) @ concat (map nodePair ps) @ concat (map connItems cs)))"
    by (elim exE)
  note r = H[THEN conjunct1]
  note g = H[THEN conjunct2, THEN conjunct1]
  note n = H[THEN conjunct2, THEN conjunct2, THEN conjunct1]
  note c = H[THEN conjunct2, THEN conjunct2, THEN conjunct2, THEN conjunct1]
  note l = H[THEN conjunct2, THEN conjunct2, THEN conjunct2, THEN conjunct2, THEN conjunct1]
  note d = H[THEN conjunct2, THEN conjunct2, THEN conjunct2, THEN conjunct2, THEN conjunct2]
  have e: "d_elements (fst (render now lay s))
        = concat (map groupPair gs) @ concat (map nodePair ps) @ concat (map connItems cs)"
    unfolding r by (simp add: envelope_def)
  have v: "fst (render now lay s) = envelope (d_elements (fst (render now lay s)))"
    unfolding r by (simp add: envelope_def)
  from d have d': "distinct (map e_id (d_elements (fst (render now lay s))))"
    unfolding e .
  show ?thesis
  proof (intro exI conjI)
    show "d_elements (fst (render now lay s))
        = concat (map groupPair gs) @ concat (map nodePair ps) @ concat (map connItems cs)" by (rule e)
    show "map (\<lambda>t. snd (snd t)) gs = lo_groups lay" by (rule g)
    show "map (\<lambda>t. snd (snd t)) ps = lo_nodes lay" by (rule n)
    show "map (\<lambda>t. snd (snd t)) cs = lo_connections lay" by (rule c)
    show "\<forall>t \<in> set cs. \<forall>l \<in> set (fst (snd t)). isText l \<and> e_containerId l = None" by (rule l)
    show "distinct (map e_id (d_elements (fst (render now lay s))))" by (rule d')
    show "fst (render now lay s) = envelope (d_elements (fst (render now lay s)))" by (rule v)
  qed
qed

lemma render_arrows:
  "\<exists>cs :: (string \<times> element list \<times> pconn) list. filter isArrow (d_elements (fst (render now lay s))) = map (\<lambda>t. arrowElement (fst t) (snd (snd t))) cs
       \<and> map (\<lambda>t. snd (snd t)) cs = lo_connections lay"
proof -
  from render_elements[of now lay s] obtain gs ps cs where
    e: "d_elements (fst (render now lay s))
        = concat (map groupPair gs) @ concat (map nodePair ps) @ concat (map connItems cs)"
    and c: "map (\<lambda>t. snd (snd t)) cs = lo_connections lay"
    and l: "\<forall>t \<in> set cs. \<forall>l \<in> set (fst (snd t)). isText l \<and> e_containerId l = None"
    by blast
  have a: "filter isArrow (d_elements (fst (render now lay s))) = map (\<lambda>t. arrowElement (fst t) (snd (snd t))) cs"
    unfolding e by (simp add: filter_arrows_groups filter_arrows_nodes filter_arrows_conns[OF l])
  from a c have "filter isArrow (d_elements (fst (render now lay s))) = map (\<lambda>t. arrowElement (fst t) (snd (snd t))) cs
       \<and> map (\<lambda>t. snd (snd t)) cs = lo_connections lay" by (rule conjI)
  then show ?thesis by (rule exI)
qed

lemma render_arrow_bindings:
  "map (\<lambda>a. (e_startBinding a, e_endBinding a)) (filter isArrow (d_elements (fst (render now lay s))))
     = map (\<lambda>c. (Some \<lparr>b_elementId = c_from c, b_focus = 0, b_gap = 0\<rparr>,
                  Some \<lparr>b_elementId = c_to c, b_focus = 0, b_gap = 0\<rparr>)) (lo_connections lay)"
proof -
  from render_arrows[of now lay s] obtain cs :: "(string \<times> element list \<times> pconn) list" where
    a: "filter isArrow (d_elements (fst (render now lay s))) = map (\<lambda>t. arrowElement (fst t) (snd (snd t))) cs"
    and c: "map (\<lambda>t. snd (snd t)) cs = lo_connections lay" by blast
  show ?thesis unfolding a c[symmetric] by (simp add: comp_def)
qed


section \<open>A worked example\<close>










section \<open>Dangling connections\<close>

lemma routed_ends [simp]: "c_from (routed ps c) = c_from c" "c_to (routed ps c) = c_to c"
  "c_label (routed ps c) = c_label c"
  by (simp_all add: routed_def Let_def)




section \<open>The pipeline returns\<close>







section \<open>Unknown layout types\<close>






section \<open>Ranks on the cross axis\<close>







lemma length_layerNodes [simp]: "length (layerNodes d sp li layer) = length layer"
  by (simp add: layerNodes_def)

















end
